theory Spec2Isabelle
  imports Main "HOL-Library.Multiset"
begin

text \<open>
  A model of the domain availability checker: the service that classifies one
  domain from four DNS-over-HTTPS queries (\<^verbatim>\<open>services/domainCheckerService.ts\<close>),
  and the component that starts the checks of a submission, buffers their
  outcomes and flushes them into the grid (\<^verbatim>\<open>App.tsx\<close>). Functions keep the names
  they have in the sources. A promise that may reject is a value of a sum type,
  with \<^term>\<open>Inl\<close> for the rejection; the refs and the state of the component are
  the fields of one record, and its callbacks are functions on that record.
\<close>

section \<open>JavaScript strings\<close>

text \<open>
  A JavaScript string is modelled as a \<^typ>\<open>string\<close>: a list of characters, each
  standing for the UTF-16 code unit of the same number (the Latin-1 range).
  The string primitives the sources call are written out for that range.
\<close>

definition code :: "char \<Rightarrow> nat" where
  "code c = of_char c"

definition isDigit :: "char \<Rightarrow> bool" where
  "isDigit c = (48 \<le> code c \<and> code c \<le> 57)"

definition isLower :: "char \<Rightarrow> bool" where
  "isLower c = (97 \<le> code c \<and> code c \<le> 122)"

definition isUpper :: "char \<Rightarrow> bool" where
  "isUpper c = (65 \<le> code c \<and> code c \<le> 90)"

text \<open>The character class \<^verbatim>\<open>[a-z0-9]\<close> under the \<^verbatim>\<open>i\<close> flag.\<close>

definition isAlnum :: "char \<Rightarrow> bool" where
  "isAlnum c = (isLower c \<or> isUpper c \<or> isDigit c)"

text \<open>\<^verbatim>\<open>String.prototype.toLowerCase\<close>: A-Z, and the Latin-1 capitals
  U+00C0..U+00DE except the multiplication sign U+00D7.\<close>

definition lowerChar :: "char \<Rightarrow> char" where
  "lowerChar c =
     (if isUpper c \<or> (192 \<le> code c \<and> code c \<le> 222 \<and> code c \<noteq> 215)
      then char_of (code c + 32) else c)"

definition toLowerCase :: "string \<Rightarrow> string" where
  "toLowerCase s = map lowerChar s"

text \<open>\<^verbatim>\<open>String.prototype.trim\<close> strips white space and line terminators:
  TAB, LF, VT, FF, CR, SP and NBSP in this range.\<close>

definition isWhiteSpace :: "char \<Rightarrow> bool" where
  "isWhiteSpace c = (code c \<in> set [9, 10, 11, 12, 13, 32, 160])"

definition trim :: "string \<Rightarrow> string" where
  "trim s = rev (dropWhile isWhiteSpace (rev (dropWhile isWhiteSpace s)))"

definition startsWith :: "string \<Rightarrow> string \<Rightarrow> bool" where
  "startsWith s p = (take (length p) s = p)"

definition endsWith :: "string \<Rightarrow> string \<Rightarrow> bool" where
  "endsWith s p = (length p \<le> length s \<and> drop (length s - length p) s = p)"

fun includesStr :: "string \<Rightarrow> string \<Rightarrow> bool" where
  "includesStr [] p = (p = [])"
| "includesStr (c # cs) p = (startsWith (c # cs) p \<or> includesStr cs p)"

text \<open>\<^verbatim>\<open>s.split(sep)\<close> for a one-character separator: always at least one piece.\<close>

fun split :: "char \<Rightarrow> string \<Rightarrow> string list" where
  "split sep [] = [[]]"
| "split sep (c # cs) =
     (if c = sep then [] # split sep cs
      else (case split sep cs of p # ps \<Rightarrow> (c # p) # ps | [] \<Rightarrow> [[c]]))"

text \<open>\<^verbatim>\<open>parts.join(sep)\<close>.\<close>

fun join :: "string \<Rightarrow> string list \<Rightarrow> string" where
  "join sep [] = []"
| "join sep [p] = p"
| "join sep (p # q # ps) = p @ sep @ join sep (q # ps)"

text \<open>Decimal rendering of a number inside a template literal.\<close>

fun showNat :: "nat \<Rightarrow> string" where
  "showNat n = (if n < 10 then [char_of (48 + n)] else showNat (n div 10) @ [char_of (48 + n mod 10)])"

definition showInt :: "int \<Rightarrow> string" where
  "showInt i = (if i < 0 then CHR ''-'' # showNat (nat (- i)) else showNat (nat i))"

text \<open>\<^verbatim>\<open>encodeURIComponent\<close>: the unreserved characters stay, every other code unit
  is written as the percent-escaped bytes of its UTF-8 encoding.\<close>

definition hexDigit :: "nat \<Rightarrow> char" where
  "hexDigit n = (if n < 10 then char_of (48 + n) else char_of (55 + n))"

definition percentByte :: "nat \<Rightarrow> string" where
  "percentByte b = [CHR ''%'', hexDigit (b div 16), hexDigit (b mod 16)]"

definition isUnreserved :: "char \<Rightarrow> bool" where
  "isUnreserved c = (isAlnum c \<or> c \<in> set ''-_.!~*'()'')"

definition encodeChar :: "char \<Rightarrow> string" where
  "encodeChar c =
     (if isUnreserved c then [c]
      else if code c < 128 then percentByte (code c)
      else percentByte (192 + code c div 64) @ percentByte (128 + code c mod 64))"

definition encodeURIComponent :: "string \<Rightarrow> string" where
  "encodeURIComponent s = concat (map encodeChar s)"

section \<open>types.ts\<close>

datatype DomainStatus = CHECKING | AVAILABLE | TAKEN | INVALID | IDLE

record DomainCheckOutcome =
  status :: DomainStatus
  reason :: "string option"

section \<open>services/domainCheckerService.ts\<close>

subsection \<open>isValidDomainFormat\<close>

record Validation =
  valid :: bool
  vreason :: "string option"

definition invalid :: "string \<Rightarrow> Validation" where
  "invalid msg = \<lparr>valid = False, vreason = Some msg\<rparr>"

text \<open>The test \<^verbatim>\<open>/[^a-z0-9.-]/i\<close> looks for a character outside this class.\<close>

definition isDomainChar :: "char \<Rightarrow> bool" where
  "isDomainChar c = (isAlnum c \<or> c = CHR ''.'' \<or> c = CHR ''-'')"

text \<open>The test \<^verbatim>\<open>/^[0-9]+$/\<close>.\<close>

definition allNumeric :: "string \<Rightarrow> bool" where
  "allNumeric s = (s \<noteq> [] \<and> list_all isDigit s)"

definition normalized :: "string \<Rightarrow> string" where
  "normalized domain = trim (toLowerCase domain)"

definition isValidDomainFormat :: "string \<Rightarrow> Validation" where
  "isValidDomainFormat domain =
    (if domain = [] then invalid ''Domain must be a string.''
     else let normalizedDomain = normalized domain in
      if length normalizedDomain < 3 \<or> length normalizedDomain > 253
      then invalid ''Domain length must be between 3 and 253 characters.''
      else if \<not> includesStr normalizedDomain ''.'' \<or> startsWith normalizedDomain ''.''
              \<or> endsWith normalizedDomain ''.''
      then invalid ''Domain must contain at least one dot, not at the start or end.''
      else if list_ex (\<lambda>c. \<not> isDomainChar c) normalizedDomain
      then invalid ''Domain contains invalid characters. Only alphanumeric, dots, and hyphens allowed.''
      else if includesStr normalizedDomain ''..''
      then invalid ''Domain cannot contain consecutive dots.''
      else let labels = split CHR ''.'' normalizedDomain in
        if list_ex (\<lambda>label. length label = 0 \<or> length label > 63) labels
        then invalid ''Each part of the domain (label) must be between 1 and 63 characters.''
        else if list_ex (\<lambda>label. startsWith label ''-'' \<or> endsWith label ''-'') labels
        then invalid ''Labels cannot start or end with a hyphen.''
        else let tld = last labels in
          if allNumeric tld \<and> length tld > 0
          then invalid ''Top-level domain (TLD) appears invalid (e.g., all numeric).''
          else if length tld < 2
          then invalid ''Top-level domain (TLD) must be at least 2 characters long.''
          else \<lparr>valid = True, vreason = None\<rparr>)"

subsection \<open>The DNS-over-HTTPS client\<close>

datatype RecordType = A | NS

definition showRecordType :: "RecordType \<Rightarrow> string" where
  "showRecordType t = (case t of A \<Rightarrow> ''A'' | NS \<Rightarrow> ''NS'')"

record DohProvider =
  name :: string
  urlPattern :: "string \<Rightarrow> RecordType \<Rightarrow> string"

definition providers :: "DohProvider list" where
  "providers =
    [\<lparr>name = ''Cloudflare'',
      urlPattern = (\<lambda>domain recordType.
        ''https://cloudflare-dns.com/dns-query?name='' @ encodeURIComponent domain
          @ ''&type='' @ showRecordType recordType)\<rparr>,
     \<lparr>name = ''Google'',
      urlPattern = (\<lambda>domain recordType.
        ''https://dns.google/resolve?name='' @ encodeURIComponent domain
          @ ''&type='' @ showRecordType recordType)\<rparr>]"

text \<open>
  What a \<^verbatim>\<open>throw\<close> or a rejected promise carries: an \<^verbatim>\<open>Error\<close> object with
  its message, or some other value.
\<close>

datatype JsError = ErrorObject string | OtherThrown

subsection \<open>JSON values\<close>

text \<open>
  \<^verbatim>\<open>response.json()\<close> resolves to any JSON value, and the service reads the body
  unchecked (its type is \<^verbatim>\<open>any\<close>). A number is \<^term>\<open>Integer\<close> \<open>n\<close> when it is a safe
  integer, which a template literal renders in decimal digits; any other number
  is \<^term>\<open>OtherNumber\<close>, with whether it is greater than zero and its rendering.
  An object holds its members in the order of the text. The limits of the engine
  (the depth of the stack, the length of a string) are left out.
\<close>

datatype Number = Integer int | OtherNumber bool string

datatype Json =
  JNull
| JBool bool
| JNumber Number
| JString string
| JArray "Json list"
| JObject "(string \<times> Json) list"

text \<open>The own property of a parsed object: of members with the same name the last
  one counts.\<close>

definition own :: "(string \<times> Json) list \<Rightarrow> string \<Rightarrow> Json option" where
  "own members k = map_of (rev members) k"

text \<open>
  \<^verbatim>\<open>v?.[k]\<close> for the names the service reads, \<^verbatim>\<open>Status\<close>, \<^verbatim>\<open>Answer\<close> and
  \<^verbatim>\<open>length\<close>: an own property of an object, the length of an array or of a
  string, and \<^verbatim>\<open>undefined\<close> (\<^term>\<open>None\<close>) otherwise, as no prototype has a member
  of the first two names, numbers and booleans have no length, and \<^verbatim>\<open>?.\<close> reads
  nothing from \<^verbatim>\<open>null\<close>.
\<close>

definition getProperty :: "Json \<Rightarrow> string \<Rightarrow> Json option" where
  "getProperty v k =
    (case v of
       JObject members \<Rightarrow> own members k
     | JArray xs \<Rightarrow> if k = ''length'' then Some (JNumber (Integer (int (length xs)))) else None
     | JString s \<Rightarrow> if k = ''length'' then Some (JNumber (Integer (int (length s)))) else None
     | _ \<Rightarrow> None)"

text \<open>The message of the \<^verbatim>\<open>TypeError\<close> that the conversion of an object to a
  primitive value throws (the engine chooses the wording).\<close>

definition toPrimitiveMessage :: string where
  "toPrimitiveMessage = ''Cannot convert object to primitive value''"

definition showNumber :: "Number \<Rightarrow> string" where
  "showNumber n = (case n of Integer i \<Rightarrow> showInt i | OtherNumber positive rendering \<Rightarrow> rendering)"

text \<open>The results of the parts, or the first throw among them.\<close>

fun collect :: "('e + 'a) list \<Rightarrow> 'e + 'a list" where
  "collect [] = Inr []"
| "collect (Inl e # ps) = Inl e"
| "collect (Inr x # ps) = (case collect ps of Inl e \<Rightarrow> Inl e | Inr xs \<Rightarrow> Inr (x # xs))"

text \<open>
  The conversion of a value to a string, as a template literal does it. An
  array joins the strings of its elements with commas, \<^verbatim>\<open>null\<close> elements giving
  the empty string. An object is converted by its \<^verbatim>\<open>toString\<close> method: the
  inherited one gives \<^verbatim>\<open>[object Object]\<close>, but an own member named \<^verbatim>\<open>toString\<close>
  hides it and, being a JSON value, cannot be called; the inherited \<^verbatim>\<open>valueOf\<close>
  returns the object itself, so no primitive value is found and the conversion
  throws a \<^verbatim>\<open>TypeError\<close>. The conversion to a primitive value for a comparison
  asks \<^verbatim>\<open>valueOf\<close> first and ends in the same way.
\<close>

fun toStringJs :: "Json \<Rightarrow> JsError + string" where
  "toStringJs JNull = Inr ''null''"
| "toStringJs (JBool b) = Inr (if b then ''true'' else ''false'')"
| "toStringJs (JNumber n) = Inr (showNumber n)"
| "toStringJs (JString s) = Inr s"
| "toStringJs (JArray xs) =
     (case collect (map (\<lambda>x. if x = JNull then Inr [] else toStringJs x) xs) of
        Inl e \<Rightarrow> Inl e
      | Inr parts \<Rightarrow> Inr (join '','' parts))"
| "toStringJs (JObject members) =
     (if own members ''toString'' = None then Inr ''[object Object]''
      else Inl (ErrorObject toPrimitiveMessage))"

text \<open>
  \<^verbatim>\<open>v > 0\<close>. A string is converted to a number first; \<open>positive\<close> tells of a
  string whether that number is greater than zero, which is the engine's
  floating-point parsing.
\<close>

definition greaterThanZero :: "(string \<Rightarrow> bool) \<Rightarrow> Json \<Rightarrow> JsError + bool" where
  "greaterThanZero positive v =
    (case v of
       JNull \<Rightarrow> Inr False
     | JBool b \<Rightarrow> Inr b
     | JNumber n \<Rightarrow> Inr (case n of Integer i \<Rightarrow> i > 0 | OtherNumber p rendering \<Rightarrow> p)
     | JString s \<Rightarrow> Inr (positive s)
     | _ \<Rightarrow> (case toStringJs v of Inl e \<Rightarrow> Inl e | Inr s \<Rightarrow> Inr (positive s)))"

subsection \<open>makeDohQuery\<close>

record Response =
  ok :: bool
  httpStatus :: nat
  statusText :: string
  json :: "JsError + Json"

text \<open>One \<^verbatim>\<open>fetch\<close>: the promise rejects, or resolves to a response.\<close>

datatype FetchOutcome = Rejects JsError | Resolves Response

text \<open>The network, seen from the client: what each requested URL comes back with.\<close>

type_synonym Network = "string \<Rightarrow> FetchOutcome"

text \<open>What a check depends on outside the sources: the network, and the engine's
  conversion of strings to numbers.\<close>

record Host =
  network :: Network
  parsesPositive :: "string \<Rightarrow> bool"

record DohQueryResult =
  providerName :: string
  recordType :: RecordType
  dnsStatus :: "Json option"
  data :: "Json option"
  error :: "string option"

text \<open>The message of the \<^verbatim>\<open>TypeError\<close> a property read from \<^verbatim>\<open>null\<close> throws
  (the engine chooses the wording).\<close>

definition nullReadMessage :: string where
  "nullReadMessage = ''Cannot read properties of null (reading 'Status')''"

text \<open>\<^verbatim>\<open>responseData.Status\<close>, which throws on \<^verbatim>\<open>null\<close>, and
  \<^verbatim>\<open>responseData?.Status\<close>, which does not.\<close>

definition readStatus :: "Json \<Rightarrow> JsError + Json option" where
  "readStatus responseData =
     (if responseData = JNull then Inl (ErrorObject nullReadMessage)
      else Inr (getProperty responseData ''Status''))"

definition readStatusOpt :: "Json \<Rightarrow> Json option" where
  "readStatusOpt responseData = getProperty responseData ''Status''"

text \<open>The body of the \<^verbatim>\<open>try\<close> block of \<^verbatim>\<open>makeDohQuery\<close>: \<^term>\<open>Inl\<close> is a throw.\<close>

definition dohTry :: "Network \<Rightarrow> DohProvider \<Rightarrow> string \<Rightarrow> RecordType \<Rightarrow> JsError + DohQueryResult" where
  "dohTry net provider url rt =
    (case net url of
       Rejects e \<Rightarrow> Inl e
     | Resolves response \<Rightarrow>
        (case json response of
           Inl e \<Rightarrow> Inl e
         | Inr responseData \<Rightarrow>
            if \<not> ok response
            then Inr \<lparr>providerName = name provider, recordType = rt,
                      dnsStatus = readStatusOpt responseData, data = None,
                      error = Some (''HTTP error '' @ showNat (httpStatus response) @ '' ''
                                      @ statusText response)\<rparr>
            else (case readStatus responseData of
                    Inl e \<Rightarrow> Inl e
                  | Inr s \<Rightarrow> Inr \<lparr>providerName = name provider, recordType = rt,
                                   dnsStatus = s, data = Some responseData, error = None\<rparr>)))"

text \<open>\<^verbatim>\<open>makeDohQuery\<close>: the URL is built outside the \<^verbatim>\<open>try\<close>; the \<^verbatim>\<open>catch\<close> turns
  every throw of the block into a result. \<^term>\<open>Inl\<close> would be a rejected promise.\<close>

definition makeDohQuery :: "Network \<Rightarrow> DohProvider \<Rightarrow> string \<Rightarrow> RecordType \<Rightarrow> JsError + DohQueryResult" where
  "makeDohQuery net provider domain rt =
    (let url = urlPattern provider domain rt in
     case dohTry net provider url rt of
       Inr r \<Rightarrow> Inr r
     | Inl err \<Rightarrow>
        Inr \<lparr>providerName = name provider, recordType = rt, dnsStatus = None, data = None,
             error = Some (case err of ErrorObject message \<Rightarrow> message
                                     | OtherThrown \<Rightarrow> ''Network/JSON error'')\<rparr>)"

subsection \<open>checkDomain\<close>

text \<open>The queries \<^verbatim>\<open>checkDomain\<close> starts, in the order it pushes them: for every
  provider an A query and an NS query.\<close>

definition queryPlan :: "(DohProvider \<times> RecordType) list" where
  "queryPlan = concat (map (\<lambda>provider. [(provider, A), (provider, NS)]) providers)"

text \<open>\<^verbatim>\<open>Promise.all\<close>: all the results in order, or the rejection of one of them.\<close>

fun promiseAll :: "('e + 'a) list \<Rightarrow> 'e + 'a list" where
  "promiseAll [] = Inr []"
| "promiseAll (Inl e # ps) = Inl e"
| "promiseAll (Inr x # ps) = (case promiseAll ps of Inl e \<Rightarrow> Inl e | Inr xs \<Rightarrow> Inr (x # xs))"

text \<open>The three variables the \<^verbatim>\<open>results.forEach\<close> loop of \<^verbatim>\<open>checkDomain\<close> updates.\<close>

record Tally =
  takenReasons :: "string list"
  allQueriesReportNxDomain :: bool
  allQueryDetails :: "string list"

definition detailPrefix :: "DohQueryResult \<Rightarrow> string" where
  "detailPrefix res = providerName res @ '' '' @ showRecordType (recordType res) @ ''-query''"

text \<open>The numbers 0 and 3, and the tests \<^verbatim>\<open>res.dnsStatus === 0\<close> and
  \<^verbatim>\<open>res.dnsStatus === 3\<close>, which hold of these numbers only.\<close>

definition noError :: "DohQueryResult \<Rightarrow> bool" where
  "noError res = (dnsStatus res = Some (JNumber (Integer 0)))"

definition nxDomain :: "DohQueryResult \<Rightarrow> bool" where
  "nxDomain res = (dnsStatus res = Some (JNumber (Integer 3)))"

text \<open>\<^verbatim>\<open>res.data?.Answer?.length ?? 0\<close>, from \<^verbatim>\<open>res.data\<close>: each \<^verbatim>\<open>?.\<close> gives \<^verbatim>\<open>undefined\<close> on
  \<^verbatim>\<open>null\<close> and \<^verbatim>\<open>undefined\<close>, and \<^verbatim>\<open>??\<close> replaces both by 0.\<close>

definition answerLength :: "Json option \<Rightarrow> Json" where
  "answerLength d =
    (case d of
       None \<Rightarrow> JNumber (Integer 0)
     | Some body \<Rightarrow>
        (case getProperty body ''Answer'' of
           None \<Rightarrow> JNumber (Integer 0)
         | Some answer \<Rightarrow>
            (case getProperty answer ''length'' of
               None \<Rightarrow> JNumber (Integer 0)
             | Some len \<Rightarrow> if len = JNull then JNumber (Integer 0) else len)))"

text \<open>
  The callback of \<^verbatim>\<open>results.forEach\<close>. It runs outside any \<^verbatim>\<open>try\<close>: the comparison
  of the answer length and the rendering of the status in the template literals
  may throw, which \<^term>\<open>Inl\<close> stands for. An error message is truthy when it is
  not empty.
\<close>

definition tallyStep :: "(string \<Rightarrow> bool) \<Rightarrow> Tally \<Rightarrow> DohQueryResult \<Rightarrow> JsError + Tally" where
  "tallyStep positive t res =
    (if noError res
     then (case greaterThanZero positive (answerLength (data res)) of
             Inl e \<Rightarrow> Inl e
           | Inr hasRecords \<Rightarrow>
               Inr (t\<lparr>takenReasons := takenReasons t @
                         [detailPrefix res @ '': NOERROR'' @
                           (if hasRecords then '' (has records)''
                            else '' (no specific records, e.g., parked)'')],
                      allQueriesReportNxDomain := False\<rparr>))
     else if nxDomain res
     then Inr (t\<lparr>allQueryDetails := allQueryDetails t @ [detailPrefix res @ '': NXDOMAIN'']\<rparr>)
     else (case (case error res of
                   Some e \<Rightarrow> if e \<noteq> [] then Inr (''Error ('' @ e @ '')'') else Inl ()
                 | None \<Rightarrow> Inl ()) of
             Inr detail \<Rightarrow>
               Inr (t\<lparr>allQueriesReportNxDomain := False,
                      allQueryDetails := allQueryDetails t @ [detailPrefix res @ '': '' @ detail]\<rparr>)
           | Inl noMessage \<Rightarrow>
               (case (case dnsStatus res of None \<Rightarrow> Inr ''Unknown'' | Some st \<Rightarrow> toStringJs st) of
                  Inl e \<Rightarrow> Inl e
                | Inr rendering \<Rightarrow>
                    Inr (t\<lparr>allQueriesReportNxDomain := False,
                           allQueryDetails := allQueryDetails t @
                             [detailPrefix res @ '': Status '' @ rendering]\<rparr>))))"

text \<open>The loop: it stops at the first throw.\<close>

fun tallyAll :: "(string \<Rightarrow> bool) \<Rightarrow> Tally \<Rightarrow> DohQueryResult list \<Rightarrow> JsError + Tally" where
  "tallyAll positive t [] = Inr t"
| "tallyAll positive t (res # results) =
     (case tallyStep positive t res of
        Inl e \<Rightarrow> Inl e
      | Inr t' \<Rightarrow> tallyAll positive t' results)"

definition tally :: "(string \<Rightarrow> bool) \<Rightarrow> DohQueryResult list \<Rightarrow> JsError + Tally" where
  "tally positive results =
     tallyAll positive
       \<lparr>takenReasons = [], allQueriesReportNxDomain = True, allQueryDetails = []\<rparr> results"

text \<open>\<^verbatim>\<open>tr.substring(0, tr.indexOf(':'))\<close>; without a colon the index is -1 and the
  substring is empty.\<close>

definition beforeColon :: "string \<Rightarrow> string" where
  "beforeColon tr = (if CHR '':'' \<in> set tr then takeWhile (\<lambda>c. c \<noteq> CHR '':'') tr else [])"

text \<open>The part of \<^verbatim>\<open>checkDomain\<close> after \<^verbatim>\<open>Promise.all\<close>: the loop, and the outcome
  read from its three variables.\<close>

definition classify :: "(string \<Rightarrow> bool) \<Rightarrow> DohQueryResult list \<Rightarrow> JsError + DomainCheckOutcome" where
  "classify positive results =
    (case tally positive results of
       Inl e \<Rightarrow> Inl e
     | Inr t \<Rightarrow>
        Inr (if length (takenReasons t) > 0
             then \<lparr>status = TAKEN,
                   reason = Some (''Taken because: '' @ join ''; '' (takenReasons t)
                     @ ''. Other details: ''
                     @ join ''; '' (filter (\<lambda>d. \<not> list_ex (\<lambda>tr. startsWith d (beforeColon tr))
                                                   (takenReasons t))
                                      (allQueryDetails t)))\<rparr>
             else if allQueriesReportNxDomain t
             then \<lparr>status = AVAILABLE,
                   reason = Some (''All providers reported NXDOMAIN for A & NS records. Details: ''
                     @ join ''; '' (allQueryDetails t))\<rparr>
             else \<lparr>status = TAKEN,
                   reason = Some (''Availability ambiguous, assuming taken. Details: ''
                     @ join ''; '' (allQueryDetails t))\<rparr>))"

text \<open>The URLs \<^verbatim>\<open>checkDomain\<close> fetches for a domain that passed validation.\<close>

definition queryUrls :: "string \<Rightarrow> string list" where
  "queryUrls domain = map (\<lambda>(provider, rt). urlPattern provider domain rt) queryPlan"

text \<open>The settled results of the queries of one domain.\<close>

definition queryResults :: "Network \<Rightarrow> string \<Rightarrow> (JsError + DohQueryResult) list" where
  "queryResults net domain = map (\<lambda>(provider, rt). makeDohQuery net provider domain rt) queryPlan"

text \<open>
  \<^verbatim>\<open>checkDomain\<close> runs up to its first \<^verbatim>\<open>await\<close> when it is called: it validates
  and calls \<^verbatim>\<open>fetch\<close> once per planned query. \<^term>\<open>checkDomainFetches\<close> is the list
  of URLs fetched by then.
\<close>

definition checkDomainFetches :: "string \<Rightarrow> string list" where
  "checkDomainFetches domain =
    (let validation = isValidDomainFormat domain in
     if \<not> valid validation then [] else queryUrls domain)"

text \<open>
  How the promise of \<^verbatim>\<open>checkDomain\<close> settles on a host: \<^term>\<open>Inr\<close> the outcome it
  resolves to, \<^term>\<open>Inl\<close> a rejection.
\<close>

definition checkDomain :: "Host \<Rightarrow> string \<Rightarrow> JsError + DomainCheckOutcome" where
  "checkDomain host domain =
    (let validation = isValidDomainFormat domain in
     if \<not> valid validation
     then Inr \<lparr>status = INVALID, reason = vreason validation\<rparr>
     else (case promiseAll (queryResults (network host) domain) of
             Inl e \<Rightarrow> Inl e
           | Inr results \<Rightarrow> classify (parsesPositive host) results))"

section \<open>App.tsx\<close>

subsection \<open>Data\<close>

record ProcessedTldResult =
  tld :: string
  cell_status :: DomainStatus
  cell_reason :: "string option"
  cell_id :: string

record ProcessedBaseNameResult =
  baseName :: string
  tldResults :: "ProcessedTldResult list"

datatype Direction = Ascending | Descending

record SortConfig =
  key :: string
  direction :: Direction

record PendingCellUpdate =
  upd_baseName :: string
  upd_tld :: string
  upd_status :: DomainStatus
  upd_reason :: "string option"

definition statusOrder :: "DomainStatus \<Rightarrow> nat" where
  "statusOrder st = (case st of AVAILABLE \<Rightarrow> 0 | CHECKING \<Rightarrow> 1 | IDLE \<Rightarrow> 2 | INVALID \<Rightarrow> 3 | TAKEN \<Rightarrow> 4)"

text \<open>An entry of \<^verbatim>\<open>domainsToProcess\<close>.\<close>

record Item =
  item_baseName :: string
  item_tld :: string
  fullDomain :: string

subsection \<open>Input validation\<close>

text \<open>The test \<^verbatim>\<open>/^[a-z0-9](?:[a-z0-9-]{0,61}[a-z0-9])?$/i\<close>, with the characters
  allowed between the first and the last as a parameter.\<close>

definition labelLike :: "(char \<Rightarrow> bool) \<Rightarrow> string \<Rightarrow> bool" where
  "labelLike inner s =
     (s \<noteq> [] \<and> length s \<le> 63 \<and> isAlnum (hd s) \<and> isAlnum (last s)
      \<and> list_all inner (butlast (tl s)))"

definition isValidBaseName :: "string \<Rightarrow> bool" where
  "isValidBaseName nm =
    (if includesStr nm ''.'' then False
     else if startsWith nm ''-'' \<or> endsWith nm ''-'' then False
     else labelLike (\<lambda>c. isAlnum c \<or> c = CHR ''-'') nm)"

definition isValidTld :: "string \<Rightarrow> bool" where
  "isValidTld t =
    (if startsWith t ''.'' \<or> endsWith t ''.'' then False
     else if includesStr t ''..'' then False
     else if length t < 2 then False
     else labelLike (\<lambda>c. isAlnum c \<or> c = CHR ''.'' \<or> c = CHR ''-'') t
          \<and> \<not> allNumeric (last (split CHR ''.'' t)))"

text \<open>\<^verbatim>\<open>replace(/[, \t]+/g, '\n')\<close>: every run of commas, spaces and tabs becomes
  one newline.\<close>

definition isDelimiter :: "char \<Rightarrow> bool" where
  "isDelimiter c = (c = CHR '','' \<or> c = CHR '' '' \<or> code c = 9)"

function normalizeDelimiters :: "string \<Rightarrow> string" where
  "normalizeDelimiters [] = []"
| "normalizeDelimiters (c # cs) =
     (if isDelimiter c then CHR 0x0A # normalizeDelimiters (dropWhile isDelimiter cs)
      else c # normalizeDelimiters cs)"
  by pat_completeness auto
termination
  by (relation "measure length") (auto simp: less_Suc_eq_le length_dropWhile_le)

text \<open>\<^verbatim>\<open>self.indexOf(value)\<close> for a value that occurs, and the filter
  \<^verbatim>\<open>self.indexOf(value) === index\<close>, which keeps first occurrences.\<close>

fun indexOf :: "'a list \<Rightarrow> 'a \<Rightarrow> nat" where
  "indexOf [] v = 0"
| "indexOf (x # xs) v = (if x = v then 0 else Suc (indexOf xs v))"

definition firstOccurrences :: "'a list \<Rightarrow> 'a list" where
  "firstOccurrences self = map snd (filter (\<lambda>(index, v). indexOf self v = index) (enumerate 0 self))"

definition uniqueBaseNames :: "string \<Rightarrow> string list" where
  "uniqueBaseNames baseNamesInput =
     firstOccurrences (filter (\<lambda>d. length d > 0)
       (map (\<lambda>d. toLowerCase (trim d)) (split (CHR 0x0A) (normalizeDelimiters baseNamesInput))))"

definition uniqueTlds :: "string \<Rightarrow> string list" where
  "uniqueTlds tldsInput =
     firstOccurrences (filter (\<lambda>t. length t > 0)
       (map (\<lambda>t. toLowerCase (trim t)) (split CHR '','' tldsInput)))"

definition domainsToProcess :: "string list \<Rightarrow> string list \<Rightarrow> Item list" where
  "domainsToProcess bases tlds =
     concat (map (\<lambda>base. map (\<lambda>t. \<lparr>item_baseName = base, item_tld = t,
                                     fullDomain = base @ ''.'' @ t\<rparr>) tlds) bases)"

subsection \<open>Plain objects used as dictionaries\<close>

text \<open>
  \<^verbatim>\<open>flushPendingCellUpdates\<close> groups the updates in object literals:
  \<^verbatim>\<open>updatesByBaseName\<close> starts as \<^verbatim>\<open>{}\<close> and gets one inner \<^verbatim>\<open>{}\<close> per base
  name. A property read \<^verbatim>\<open>o[k]\<close> on such an object yields its own property
  \<^verbatim>\<open>k\<close> and, when it has none, the member \<^verbatim>\<open>k\<close> it inherits from
  \<^verbatim>\<open>Object.prototype\<close>. The keys here are base names and TLDs, which
  \<^verbatim>\<open>handleSubmit\<close> has lower-cased and validated; the one member of
  \<^verbatim>\<open>Object.prototype\<close> spelled in lower-case letters only is \<^verbatim>\<open>constructor\<close>,
  whose value is the built-in function \<^verbatim>\<open>Object\<close>. The own properties are kept as
  an association list in insertion order.
\<close>

type_synonym 'v Props = "(string \<times> 'v) list"

text \<open>\<^verbatim>\<open>o[k] = v\<close> on the own properties.\<close>

definition assign :: "string \<Rightarrow> 'v \<Rightarrow> 'v Props \<Rightarrow> 'v Props" where
  "assign k v ps =
     (if map_of ps k = None then ps @ [(k, v)]
      else map (\<lambda>(k', v'). if k' = k then (k', v) else (k', v')) ps)"

text \<open>The object \<^verbatim>\<open>{ status: update.status, reason: update.reason }\<close>.\<close>

record CellUpdate =
  new_status :: DomainStatus
  new_reason :: "string option"

text \<open>What \<^verbatim>\<open>updatesByBaseName[k]\<close> evaluates to: \<^verbatim>\<open>undefined\<close>, one of the inner
  objects, or the inherited \<^verbatim>\<open>Object\<close> function (both truthy).\<close>

datatype RowUpdates = NoRowUpdates | OwnUpdates "CellUpdate Props" | ObjectFunction

definition readRowUpdates :: "CellUpdate Props Props \<Rightarrow> string \<Rightarrow> RowUpdates" where
  "readRowUpdates updatesByBaseName k =
     (case map_of updatesByBaseName k of
        Some d \<Rightarrow> OwnUpdates d
      | None \<Rightarrow> if k = ''constructor'' then ObjectFunction else NoRowUpdates)"

text \<open>
  The members of the function \<^verbatim>\<open>Object\<close> under lower-case names: its own, and those
  it inherits from \<^verbatim>\<open>Function.prototype\<close> and \<^verbatim>\<open>Object.prototype\<close>. All of them
  are truthy. \<^verbatim>\<open>length\<close>, \<^verbatim>\<open>name\<close> and \<^verbatim>\<open>prototype\<close> are read-only, and
  \<^verbatim>\<open>arguments\<close> and \<^verbatim>\<open>caller\<close> are accessors that throw a \<^verbatim>\<open>TypeError\<close> when
  read or written. \<^verbatim>\<open>App.tsx\<close> is a module, hence strict code, where an assignment
  to a read-only property throws too.
\<close>

definition objectMembers :: "string list" where
  "objectMembers =
     [''length'', ''name'', ''prototype'', ''assign'', ''create'', ''entries'', ''freeze'',
      ''is'', ''keys'', ''seal'', ''values'', ''apply'', ''bind'', ''call'', ''constructor'']"

definition throwingMembers :: "string list" where
  "throwingMembers = [''arguments'', ''caller'']"

definition readOnlyMembers :: "string list" where
  "readOnlyMembers = [''length'', ''name'', ''prototype''] @ throwingMembers"

text \<open>What \<^verbatim>\<open>rowUpdates[cell.tld]\<close> evaluates to. \<^term>\<open>objectProps\<close> are the properties
  that earlier assignments have stored on the function \<^verbatim>\<open>Object\<close>.\<close>

datatype CellRead = NoCellUpdate | Found CellUpdate | BuiltInMember | ReadThrows

definition readCellUpdate :: "RowUpdates \<Rightarrow> CellUpdate Props \<Rightarrow> string \<Rightarrow> CellRead" where
  "readCellUpdate rowUpdates objectProps k =
     (case rowUpdates of
        NoRowUpdates \<Rightarrow> NoCellUpdate
      | OwnUpdates d \<Rightarrow>
          (case map_of d k of
             Some u \<Rightarrow> Found u
           | None \<Rightarrow> if k = ''constructor'' then BuiltInMember else NoCellUpdate)
      | ObjectFunction \<Rightarrow>
          (case map_of objectProps k of
             Some u \<Rightarrow> Found u
           | None \<Rightarrow> if k \<in> set throwingMembers then ReadThrows
                     else if k \<in> set objectMembers then BuiltInMember
                     else NoCellUpdate))"

text \<open>
  The \<^verbatim>\<open>updatesToApply.forEach\<close> loop. It returns whether an assignment threw, the
  grouping, and the properties stored on \<^verbatim>\<open>Object\<close>, which outlive the flush.
\<close>

fun groupUpdates ::
  "PendingCellUpdate list \<Rightarrow> CellUpdate Props Props \<Rightarrow> CellUpdate Props
     \<Rightarrow> bool \<times> CellUpdate Props Props \<times> CellUpdate Props" where
  "groupUpdates [] updatesByBaseName objectProps = (False, updatesByBaseName, objectProps)"
| "groupUpdates (update # rest) updatesByBaseName objectProps =
    (let u = \<lparr>new_status = upd_status update, new_reason = upd_reason update\<rparr> in
     case readRowUpdates updatesByBaseName (upd_baseName update) of
       NoRowUpdates \<Rightarrow>
         groupUpdates rest (assign (upd_baseName update) (assign (upd_tld update) u [])
                             updatesByBaseName) objectProps
     | OwnUpdates d \<Rightarrow>
         groupUpdates rest (assign (upd_baseName update) (assign (upd_tld update) u d)
                             updatesByBaseName) objectProps
     | ObjectFunction \<Rightarrow>
         if upd_tld update \<in> set readOnlyMembers then (True, updatesByBaseName, objectProps)
         else groupUpdates rest updatesByBaseName (assign (upd_tld update) u objectProps))"

subsection \<open>The grid\<close>

text \<open>
  A row of the grid is an object: its address and its fields. Rows are never
  changed in place, so two rows are the same object exactly when their addresses
  are equal; \<^verbatim>\<open>{ ...row, tldResults: newTldResults }\<close> allocates the next address.
\<close>

type_synonym RowObject = "nat \<times> ProcessedBaseNameResult"

text \<open>
  A flush ends what the model describes in two cases. The updater throws a
  \<^verbatim>\<open>TypeError\<close>: it runs while React renders, no error boundary catches the
  throw, and React unmounts the component. Or a built-in member is taken for a
  cell update, so that the cell's status becomes \<^verbatim>\<open>undefined\<close>, which is no
  \<^typ>\<open>DomainStatus\<close> and which the grid of the model cannot hold.
\<close>

datatype Fault = TypeErrorThrown | UndefinedStatus

text \<open>\<^verbatim>\<open>row.tldResults.map(cell => ...)\<close>: whether a read threw, whether a built-in
  member was taken for an update, \<^verbatim>\<open>hasChanged\<close>, and the new cells.\<close>

fun updateCells ::
  "(string \<Rightarrow> CellRead) \<Rightarrow> ProcessedTldResult list \<Rightarrow> bool \<times> bool \<times> bool \<times> ProcessedTldResult list" where
  "updateCells rd [] = (False, False, False, [])"
| "updateCells rd (cell # cells) =
    (case rd (tld cell) of
       ReadThrows \<Rightarrow> (True, False, False, [])
     | BuiltInMember \<Rightarrow>
         (case updateCells rd cells of (thrown, undef, hasChanged, cs) \<Rightarrow>
            (thrown, True, True, cell # cs))
     | NoCellUpdate \<Rightarrow>
         (case updateCells rd cells of (thrown, undef, hasChanged, cs) \<Rightarrow>
            (thrown, undef, hasChanged, cell # cs))
     | Found u \<Rightarrow>
         (case updateCells rd cells of (thrown, undef, hasChanged, cs) \<Rightarrow>
            (thrown, undef, True,
             cell\<lparr>cell_status := new_status u, cell_reason := new_reason u\<rparr> # cs)))"

text \<open>\<^verbatim>\<open>prevResults.map(row => ...)\<close>, threading the next free address.\<close>

fun updateRows ::
  "CellUpdate Props Props \<Rightarrow> CellUpdate Props \<Rightarrow> nat \<Rightarrow> RowObject list
     \<Rightarrow> bool \<times> bool \<times> nat \<times> RowObject list" where
  "updateRows updatesByBaseName objectProps next [] = (False, False, next, [])"
| "updateRows updatesByBaseName objectProps next ((addr, row) # rows) =
    (let rowUpdates = readRowUpdates updatesByBaseName (baseName row) in
     if rowUpdates = NoRowUpdates
     then (case updateRows updatesByBaseName objectProps next rows of
             (thrown, undef, next', rs) \<Rightarrow> (thrown, undef, next', (addr, row) # rs))
     else (case updateCells (readCellUpdate rowUpdates objectProps) (tldResults row) of
             (thrown, undef, hasChanged, newTldResults) \<Rightarrow>
               if thrown then (True, undef, next, [])
               else if hasChanged
               then (case updateRows updatesByBaseName objectProps (Suc next) rows of
                       (thrown', undef', next', rs) \<Rightarrow>
                         (thrown', undef \<or> undef', next',
                          (next, row\<lparr>tldResults := newTldResults\<rparr>) # rs))
               else (case updateRows updatesByBaseName objectProps next rows of
                       (thrown', undef', next', rs) \<Rightarrow>
                         (thrown', undef', next', (addr, row) # rs))))"

subsection \<open>The state of the component\<close>

text \<open>
  The React state and the refs of \<^verbatim>\<open>App\<close> that the orchestration reads or writes,
  together with what lives outside the component: the checks that have been
  started and have not settled yet (\<^term>\<open>inFlight\<close>), the number of settled checks
  whose \<^verbatim>\<open>finally\<close> callback is still to run, the URLs fetched so far
  (\<^term>\<open>fetchLog\<close>), the addresses and interval handles handed out, and the
  properties stored on the function \<^verbatim>\<open>Object\<close>. The filter options, the summary
  text and the clipboard feedback are presentation and are left out.
  \<^term>\<open>timeTaken\<close> holds the elapsed milliseconds, which the component renders in
  seconds with two decimals. \<^verbatim>\<open>window.setInterval\<close> returns a positive handle, so
  the timer runs exactly while \<^term>\<open>flushInterval\<close> holds one. \<^term>\<open>fault\<close> is set
  by the first flush that faults.
\<close>

record AppState =
  baseNamesInput :: string
  tldsInput :: string
  gridResults :: "RowObject list"
  parsedTldsForTable :: "string list"
  isLoading :: bool
  errorMessage :: "string option"
  startTime :: "int option"
  timeTaken :: "int option"
  sortConfig :: "SortConfig option"
  pendingCellUpdates :: "PendingCellUpdate list"
  flushInterval :: "nat option"
  completedChecks :: nat
  totalChecks :: nat
  inFlight :: "Item list"
  finallyPending :: nat
  fetchLog :: "string list"
  nextAddress :: nat
  handlesIssued :: nat
  objectProps :: "CellUpdate Props"
  fault :: "Fault option"

definition initialState :: AppState where
  "initialState =
    \<lparr>baseNamesInput = [], tldsInput = [], gridResults = [], parsedTldsForTable = [],
     isLoading = False, errorMessage = None, startTime = None, timeTaken = None,
     sortConfig = None, pendingCellUpdates = [], flushInterval = None,
     completedChecks = 0, totalChecks = 0, inFlight = [], finallyPending = 0, fetchLog = [],
     nextAddress = 0, handlesIssued = 0, objectProps = [], fault = None\<rparr>"

subsection \<open>flushPendingCellUpdates and clearAsyncOperations\<close>

text \<open>
  The updater passed to \<^verbatim>\<open>setGridResults\<close>, applied to the current grid. When
  it faults, the state records the fault and nothing else of the flush: the
  grid of such a state is not the grid of the component, and \<^term>\<open>step\<close> below
  stops there.
\<close>

definition applyUpdates :: "PendingCellUpdate list \<Rightarrow> AppState \<Rightarrow> AppState" where
  "applyUpdates updatesToApply s =
    (case groupUpdates updatesToApply [] (objectProps s) of
       (thrown, updatesByBaseName, props) \<Rightarrow>
         if thrown then s\<lparr>objectProps := props, fault := Some TypeErrorThrown\<rparr>
         else (case updateRows updatesByBaseName props (nextAddress s) (gridResults s) of
                 (thrown', undef, next, rows) \<Rightarrow>
                   if thrown' then s\<lparr>objectProps := props, fault := Some TypeErrorThrown\<rparr>
                   else if undef then s\<lparr>objectProps := props, fault := Some UndefinedStatus\<rparr>
                   else s\<lparr>objectProps := props, gridResults := rows, nextAddress := next\<rparr>))"

definition flushPendingCellUpdates :: "AppState \<Rightarrow> AppState" where
  "flushPendingCellUpdates s =
    (if length (pendingCellUpdates s) = 0 then s
     else let updatesToApply = pendingCellUpdates s in
          applyUpdates updatesToApply (s\<lparr>pendingCellUpdates := []\<rparr>))"

text \<open>A handle is truthy when it is not zero.\<close>

definition clearFlushInterval :: "AppState \<Rightarrow> AppState" where
  "clearFlushInterval s =
    (case flushInterval s of
       Some h \<Rightarrow> if h \<noteq> 0 then s\<lparr>flushInterval := None\<rparr> else s
     | None \<Rightarrow> s)"

definition clearAsyncOperations :: "AppState \<Rightarrow> AppState" where
  "clearAsyncOperations s =
    (clearFlushInterval s)\<lparr>pendingCellUpdates := [], completedChecks := 0, totalChecks := 0\<rparr>"

definition handleClear :: "AppState \<Rightarrow> AppState" where
  "handleClear s =
    clearAsyncOperations
      (s\<lparr>baseNamesInput := [], tldsInput := [], gridResults := [], parsedTldsForTable := [],
         isLoading := False, errorMessage := None, timeTaken := None, startTime := None,
         sortConfig := None\<rparr>)"

subsection \<open>handleSubmit\<close>

text \<open>
  \<^verbatim>\<open>generateUniqueId\<close> reads the clock and the random generator; \<open>ids n\<close> stands
  for the identifier it returns at its \<open>n\<close>-th call. The initial grid allocates one
  row object per base name.
\<close>

definition initialRow :: "(nat \<Rightarrow> string) \<Rightarrow> string list \<Rightarrow> nat \<Rightarrow> string \<Rightarrow> ProcessedBaseNameResult" where
  "initialRow ids tlds i base =
    \<lparr>baseName = base,
     tldResults = map (\<lambda>(j, t). \<lparr>tld = t, cell_status = CHECKING, cell_reason = None,
                                   cell_id = ids (i * length tlds + j)\<rparr>) (enumerate 0 tlds)\<rparr>"

definition initialGridResults :: "(nat \<Rightarrow> string) \<Rightarrow> nat \<Rightarrow> string list \<Rightarrow> string list \<Rightarrow> RowObject list" where
  "initialGridResults ids next bases tlds =
     map (\<lambda>(i, base). (next + i, initialRow ids tlds i base)) (enumerate 0 bases)"

definition tooManyMessage :: string where
  "tooManyMessage = ''Generated more than 50,000 domain combinations. Please reduce base names or TLDs.''"

text \<open>
  \<open>now\<close> is what \<^verbatim>\<open>Date.now()\<close> returns. The last step starts every check: each
  call of \<^verbatim>\<open>checkDomain\<close> issues its fetches at once and stays in flight until it
  settles.
\<close>

definition handleSubmit :: "int \<Rightarrow> (nat \<Rightarrow> string) \<Rightarrow> AppState \<Rightarrow> AppState" where
  "handleSubmit now ids s0 =
    (let s = clearAsyncOperations
               (s0\<lparr>errorMessage := None, gridResults := [], parsedTldsForTable := [],
                   timeTaken := None, startTime := None, sortConfig := None\<rparr>);
         bases = uniqueBaseNames (baseNamesInput s);
         tlds = uniqueTlds (tldsInput s)
     in
     if length bases = 0 then s\<lparr>errorMessage := Some ''Please enter at least one base name.''\<rparr>
     else if length tlds = 0 then s\<lparr>errorMessage := Some ''Please enter at least one TLD.''\<rparr>
     else let invalidBaseNames = filter (\<lambda>nm. \<not> isValidBaseName nm) bases in
     if length invalidBaseNames > 0
     then s\<lparr>errorMessage := Some (''Invalid base name(s): '' @ join '', '' invalidBaseNames
               @ ''. Base names cannot contain dots and must be valid DNS labels.'')\<rparr>
     else let invalidTlds = filter (\<lambda>t. \<not> isValidTld t) tlds in
     if length invalidTlds > 0
     then s\<lparr>errorMessage := Some (''Invalid TLD(s): '' @ join '', '' invalidTlds
               @ ''. TLDs must be valid (e.g., com, co.uk).'')\<rparr>
     else
      let s1 = s\<lparr>isLoading := True, parsedTldsForTable := tlds, startTime := Some now,
                 gridResults := initialGridResults ids (nextAddress s) bases tlds,
                 nextAddress := nextAddress s + length bases\<rparr>;
          items = domainsToProcess bases tlds;
          s2 = s1\<lparr>totalChecks := length items, completedChecks := 0\<rparr>
      in
      if totalChecks s2 > 50000
      then clearAsyncOperations
             (s2\<lparr>errorMessage := Some tooManyMessage, isLoading := False, gridResults := [],
                 parsedTldsForTable := [], startTime := None\<rparr>)
      else if totalChecks s2 = 0
      then clearAsyncOperations
             (s2\<lparr>errorMessage := Some ''No valid domain combinations to check.'',
                 isLoading := False, startTime := None\<rparr>)
      else s2\<lparr>flushInterval := Some (Suc (handlesIssued s2)),
              handlesIssued := Suc (handlesIssued s2),
              inFlight := inFlight s2 @ items,
              fetchLog := fetchLog s2 @ concat (map (\<lambda>item. checkDomainFetches (fullDomain item)) items)\<rparr>)"

subsection \<open>Settling of a check\<close>

text \<open>
  The callbacks chained on the promise of one check. When the promise settles,
  \<^verbatim>\<open>then\<close> or \<^verbatim>\<open>catch\<close> runs; \<^verbatim>\<open>finally\<close> runs a few microtasks later, after
  the \<^verbatim>\<open>then\<close> callbacks of the checks that settled in the same turn, and before
  any timer or click. \<^term>\<open>finallyPending\<close> counts the checks between the two.
\<close>

definition onSettled :: "Item \<Rightarrow> JsError + DomainCheckOutcome \<Rightarrow> AppState \<Rightarrow> AppState" where
  "onSettled item settled s =
    s\<lparr>pendingCellUpdates := pendingCellUpdates s @
        [case settled of
           Inr checkOutcome \<Rightarrow>
             \<lparr>upd_baseName = item_baseName item, upd_tld = item_tld item,
              upd_status = status checkOutcome, upd_reason = reason checkOutcome\<rparr>
         | Inl err \<Rightarrow>
             \<lparr>upd_baseName = item_baseName item, upd_tld = item_tld item,
              upd_status = INVALID, upd_reason = Some ''Error during check''\<rparr>]\<rparr>"

definition onFinally :: "int \<Rightarrow> AppState \<Rightarrow> AppState" where
  "onFinally now s0 =
    (let s = s0\<lparr>completedChecks := completedChecks s0 + 1\<rparr> in
     if completedChecks s = totalChecks s
     then let s1 = (flushPendingCellUpdates (clearFlushInterval s))\<lparr>isLoading := False\<rparr> in
          (case startTime s1 of
             Some t \<Rightarrow> if t \<noteq> 0 then s1\<lparr>timeTaken := Some (now - t)\<rparr> else s1
           | None \<Rightarrow> s1)
     else s)"

text \<open>The \<open>k\<close>-th check in flight settles, its queries having been answered as
  \<open>host\<close> says.\<close>

definition settle :: "nat \<Rightarrow> Host \<Rightarrow> AppState \<Rightarrow> AppState" where
  "settle k host s =
    (if k < length (inFlight s)
     then let item = inFlight s ! k in
          (onSettled item (checkDomain host (fullDomain item)) s)
            \<lparr>inFlight := take k (inFlight s) @ drop (Suc k) (inFlight s),
             finallyPending := Suc (finallyPending s)\<rparr>
     else s)"

text \<open>The oldest pending \<^verbatim>\<open>finally\<close> callback runs; the clock reads \<open>now\<close>.\<close>

definition runFinally :: "int \<Rightarrow> AppState \<Rightarrow> AppState" where
  "runFinally now s =
    (if finallyPending s = 0 then s
     else onFinally now (s\<lparr>finallyPending := finallyPending s - 1\<rparr>))"

subsection \<open>Events\<close>

text \<open>
  What can happen to the component: the user types into an input (both are
  disabled while loading), clicks the submit or the clear button (each under its
  \<^verbatim>\<open>disabled\<close> condition), the interval timer fires, a check settles, or a
  pending \<^verbatim>\<open>finally\<close> callback runs. Typing, clicks and the timer are tasks of the
  event loop: they wait until no callback is pending.
\<close>

datatype Event =
  TypeBaseNames string
| TypeTlds string
| ClickSubmit int "nat \<Rightarrow> string"
| ClickClear
| TimerFires
| CheckSettles nat Host
| FinallyRuns int

definition callbacksPending :: "AppState \<Rightarrow> bool" where
  "callbacksPending s = (finallyPending s \<noteq> 0)"

fun dispatch :: "AppState \<Rightarrow> Event \<Rightarrow> AppState" where
  "dispatch s (TypeBaseNames text) =
     (if callbacksPending s \<or> isLoading s then s else s\<lparr>baseNamesInput := text\<rparr>)"
| "dispatch s (TypeTlds text) =
     (if callbacksPending s \<or> isLoading s then s else s\<lparr>tldsInput := text\<rparr>)"
| "dispatch s (ClickSubmit now ids) =
     (if callbacksPending s \<or> isLoading s \<or> trim (baseNamesInput s) = [] \<or> trim (tldsInput s) = []
      then s else handleSubmit now ids s)"
| "dispatch s ClickClear =
     (if callbacksPending s
         \<or> (isLoading s \<and> length (baseNamesInput s) = 0 \<and> length (tldsInput s) = 0)
      then s else handleClear s)"
| "dispatch s TimerFires =
     (if callbacksPending s \<or> flushInterval s = None then s else flushPendingCellUpdates s)"
| "dispatch s (CheckSettles k host) = settle k host s"
| "dispatch s (FinallyRuns now) = runFinally now s"

text \<open>One event. The model follows the component up to the first fault of a
  flush; from there on no event changes the state.\<close>

definition step :: "AppState \<Rightarrow> Event \<Rightarrow> AppState" where
  "step s e = (if fault s = None then dispatch s e else s)"

definition run :: "Event list \<Rightarrow> AppState" where
  "run events = foldl step initialState events"

subsection \<open>Sorting\<close>

definition handleSortRequest :: "string \<Rightarrow> AppState \<Rightarrow> AppState" where
  "handleSortRequest k s =
    (let direction =
       (case sortConfig s of
          Some cfg \<Rightarrow> if key cfg = k \<and> direction cfg = Ascending then Descending else Ascending
        | None \<Rightarrow> Ascending)
     in s\<lparr>sortConfig := Some \<lparr>key = k, direction = direction\<rparr>\<rparr>)"

text \<open>\<^verbatim>\<open>a.tldResults.find(r => r.tld === sortConfig.key)\<close>.\<close>

definition findCell :: "string \<Rightarrow> ProcessedBaseNameResult \<Rightarrow> ProcessedTldResult option" where
  "findCell k row = find (\<lambda>r. tld r = k) (tldResults row)"

text \<open>The number compared for a row: the rank of the cell's status, or
  \<^verbatim>\<open>Infinity\<close> (\<^term>\<open>None\<close>) when the row has no such cell.\<close>

definition sortRank :: "string \<Rightarrow> ProcessedBaseNameResult \<Rightarrow> nat option" where
  "sortRank k row = (case findCell k row of Some cell \<Rightarrow> Some (statusOrder (cell_status cell)) | None \<Rightarrow> None)"

text \<open>\<^verbatim>\<open>aStatus - bStatus\<close>. The difference of two infinities is \<^verbatim>\<open>NaN\<close>, which
  \<^verbatim>\<open>sort\<close> takes for zero.\<close>

definition rankDifference :: "nat option \<Rightarrow> nat option \<Rightarrow> int" where
  "rankDifference a b =
    (case (a, b) of
       (Some x, Some y) \<Rightarrow> int x - int y
     | (Some x, None) \<Rightarrow> - 1
     | (None, Some y) \<Rightarrow> 1
     | (None, None) \<Rightarrow> 0)"

text \<open>
  \<^verbatim>\<open>Array.prototype.sort\<close> is stable: with a comparator that is a consistent
  ordering it returns the one stable sorted arrangement, which is what
  insertion from the right computes.
\<close>

fun insertBy :: "('a \<Rightarrow> 'a \<Rightarrow> int) \<Rightarrow> 'a \<Rightarrow> 'a list \<Rightarrow> 'a list" where
  "insertBy cmp x [] = [x]"
| "insertBy cmp x (y # ys) = (if cmp x y \<le> 0 then x # y # ys else y # insertBy cmp x ys)"

definition sortBy :: "('a \<Rightarrow> 'a \<Rightarrow> int) \<Rightarrow> 'a list \<Rightarrow> 'a list" where
  "sortBy cmp xs = foldr (insertBy cmp) xs []"

text \<open>\<^verbatim>\<open>sortedAndFilteredResults\<close>, from the filtered rows and the sort
  configuration. \<^verbatim>\<open>localeCompare\<close> is the host's collation.\<close>

definition sortedAndFilteredResults ::
  "(string \<Rightarrow> string \<Rightarrow> int) \<Rightarrow> ProcessedBaseNameResult list \<Rightarrow> SortConfig option
     \<Rightarrow> ProcessedBaseNameResult list" where
  "sortedAndFilteredResults localeCompare filteredResults cfg =
    (case cfg of
       None \<Rightarrow> filteredResults
     | Some c \<Rightarrow>
        (let sortableItems =
           sortBy (\<lambda>a b. if key c = ''baseName'' then localeCompare (baseName a) (baseName b)
                         else rankDifference (sortRank (key c) a) (sortRank (key c) b))
                  filteredResults
         in if direction c = Descending then rev sortableItems else sortableItems))"

section \<open>Vocabulary of the properties\<close>

text \<open>The place of a row in the order Available, Checking, Idle, Invalid, Taken,
  no cell, when sorting by the column \<open>k\<close>.\<close>

definition rankOrMissing :: "string \<Rightarrow> ProcessedBaseNameResult \<Rightarrow> nat" where
  "rankOrMissing k row =
     (case findCell k row of Some cell \<Rightarrow> statusOrder (cell_status cell) | None \<Rightarrow> 5)"

text \<open>No row with a cell for \<open>k\<close> comes after a row without one.\<close>

definition missingLast :: "string \<Rightarrow> ProcessedBaseNameResult list \<Rightarrow> bool" where
  "missingLast k rows =
     list_all (\<lambda>row. findCell k row = None) (dropWhile (\<lambda>row. findCell k row \<noteq> None) rows)"

text \<open>The addresses of the rows of the grid, and the statuses it shows.\<close>

definition rowAddresses :: "AppState \<Rightarrow> (nat \<times> string) list" where
  "rowAddresses s = map (\<lambda>(addr, row). (addr, baseName row)) (gridResults s)"

definition cellStatuses :: "AppState \<Rightarrow> (string \<times> (string \<times> DomainStatus) list) list" where
  "cellStatuses s =
     map (\<lambda>(addr, row). (baseName row, map (\<lambda>cell. (tld cell, cell_status cell)) (tldResults row)))
       (gridResults s)"

text \<open>
  The most recently enqueued update of a cell, a row with these updates applied to
  its cells, and the update that a grouping stores for a cell.
\<close>

definition lastUpdateFor :: "PendingCellUpdate list \<Rightarrow> string \<Rightarrow> string \<Rightarrow> CellUpdate option" where
  "lastUpdateFor us b t =
     (case rev (filter (\<lambda>u. upd_baseName u = b \<and> upd_tld u = t) us) of
        [] \<Rightarrow> None
      | u # _ \<Rightarrow> Some \<lparr>new_status = upd_status u, new_reason = upd_reason u\<rparr>)"

definition withLastUpdates :: "PendingCellUpdate list \<Rightarrow> ProcessedBaseNameResult \<Rightarrow> ProcessedBaseNameResult" where
  "withLastUpdates us row =
     row\<lparr>tldResults :=
           map (\<lambda>cell. case lastUpdateFor us (baseName row) (tld cell) of
                          None \<Rightarrow> cell
                        | Some u \<Rightarrow> cell\<lparr>cell_status := new_status u, cell_reason := new_reason u\<rparr>)
             (tldResults row)\<rparr>"

definition stored :: "CellUpdate Props Props \<Rightarrow> string \<Rightarrow> string \<Rightarrow> CellUpdate option" where
  "stored m b t = (case map_of m b of None \<Rightarrow> None | Some d \<Rightarrow> map_of d t)"

text \<open>A word of lower-case letters and digits.\<close>

definition plainWord :: "string \<Rightarrow> bool" where
  "plainWord w = (w \<noteq> [] \<and> list_all (\<lambda>c. isLower c \<or> isDigit c) w)"

text \<open>
  A value that has a string: neither it nor, when it is an array, an element of
  it (at any depth of arrays) is an object with an own member named
  \<^verbatim>\<open>toString\<close>.
\<close>

fun convertible :: "Json \<Rightarrow> bool" where
  "convertible (JArray xs) = list_all convertible xs"
| "convertible (JObject members) = (own members ''toString'' = None)"
| "convertible v = True"

text \<open>
  A query result whose values the loop of \<^verbatim>\<open>checkDomain\<close> converts have a
  string: the answer length when the status is 0, and otherwise the status,
  unless the result has an error message to show.
\<close>

definition readable :: "DohQueryResult \<Rightarrow> bool" where
  "readable res =
    (if dnsStatus res = Some (JNumber (Integer 0)) then convertible (answerLength (data res))
     else (case error res of Some e \<Rightarrow> e \<noteq> [] | None \<Rightarrow> False)
          \<or> (case dnsStatus res of None \<Rightarrow> True | Some st \<Rightarrow> convertible st))"

text \<open>
  The same, of what a fetch comes back with: an HTTP success whose body has a
  \<^verbatim>\<open>Status\<close> 0 and an answer length without a string, or a \<^verbatim>\<open>Status\<close> without a
  string.
\<close>

definition unreadableAnswer :: "FetchOutcome \<Rightarrow> bool" where
  "unreadableAnswer fetched =
    (case fetched of
       Rejects e \<Rightarrow> False
     | Resolves response \<Rightarrow>
         ok response \<and>
         (case json response of
            Inl e \<Rightarrow> False
          | Inr body \<Rightarrow>
              (case getProperty body ''Status'' of
                 None \<Rightarrow> False
               | Some st \<Rightarrow> if st = JNumber (Integer 0)
                            then \<not> convertible (answerLength (Some body))
                            else \<not> convertible st)))"

section \<open>Example inputs\<close>

text \<open>
  Hosts: every query answered with one RCODE, one NOERROR among NXDOMAIN answers,
  a network that is down, and a server that answers \<^verbatim>\<open>null\<close>. No string is
  compared with zero on them; \<^term>\<open>decimalPositive\<close> is the conversion on strings of
  decimal digits.
\<close>

definition decimalPositive :: "string \<Rightarrow> bool" where
  "decimalPositive s = (s \<noteq> [] \<and> list_all isDigit s \<and> list_ex (\<lambda>c. c \<noteq> CHR ''0'') s)"

definition answersWith :: "Json \<Rightarrow> FetchOutcome" where
  "answersWith st =
     Resolves \<lparr>ok = True, httpStatus = 200, statusText = ''OK'',
               json = Inr (JObject [(''Status'', st)])\<rparr>"

definition answers :: "int \<Rightarrow> FetchOutcome" where
  "answers rcode = answersWith (JNumber (Integer rcode))"

definition noerrorFromCloudflareA :: Host where
  "noerrorFromCloudflareA =
     \<lparr>network = (\<lambda>url. if url = ''https://cloudflare-dns.com/dns-query?name=foo.com&type=A''
                         then answers 0 else answers 3),
      parsesPositive = decimalPositive\<rparr>"

definition nxdomainEverywhere :: Host where
  "nxdomainEverywhere = \<lparr>network = (\<lambda>url. answers 3), parsesPositive = decimalPositive\<rparr>"

definition unreachable :: Host where
  "unreachable = \<lparr>network = (\<lambda>url. Rejects (ErrorObject ''Failed to fetch'')),
                   parsesPositive = decimalPositive\<rparr>"

definition nullBodies :: Host where
  "nullBodies =
     \<lparr>network = (\<lambda>url. Resolves \<lparr>ok = True, httpStatus = 200, statusText = ''OK'',
                                    json = Inr JNull\<rparr>),
      parsesPositive = decimalPositive\<rparr>"

text \<open>
  Servers that answer with JSON no resolver is meant to send: the object
  \<^verbatim>\<open>{"toString": null}\<close> as \<^verbatim>\<open>Status\<close>, from every server or from all but the one
  that answers NOERROR, and the body
  \<^verbatim>\<open>{"Status": 0, "Answer": {"length": {"toString": null}}}\<close>.
\<close>

definition strangeValue :: Json where
  "strangeValue = JObject [(''toString'', JNull)]"

definition strangeEverywhere :: Host where
  "strangeEverywhere = \<lparr>network = (\<lambda>url. answersWith strangeValue),
                         parsesPositive = decimalPositive\<rparr>"

definition noerrorAmongStrange :: Host where
  "noerrorAmongStrange =
     \<lparr>network = (\<lambda>url. if url = ''https://cloudflare-dns.com/dns-query?name=foo.com&type=A''
                         then answers 0 else answersWith strangeValue),
      parsesPositive = decimalPositive\<rparr>"

definition strangeAnswerLength :: Host where
  "strangeAnswerLength =
     \<lparr>network = (\<lambda>url. Resolves \<lparr>ok = True, httpStatus = 200, statusText = ''OK'',
          json = Inr (JObject [(''Status'', JNumber (Integer 0)),
                               (''Answer'', JObject [(''length'', strangeValue)])])\<rparr>),
      parsesPositive = decimalPositive\<rparr>"

text \<open>Runs of the component. In \<^term>\<open>clearedRun\<close> the user clears the form while the
  check of \<^verbatim>\<open>foo.com\<close> is in flight; in \<^term>\<open>supersededRun\<close> a second submission
  follows before that check settles, and in \<^term>\<open>overtakenRun\<close> the second
  submission is of \<^verbatim>\<open>bar.com\<close> alone. In \<^term>\<open>constructorRun\<close> the base name
  \<^verbatim>\<open>constructor\<close> is checked next to \<^verbatim>\<open>foo\<close>. In \<^term>\<open>rejectedRun\<close> the check of
  \<^verbatim>\<open>foo.com\<close> settles on \<^term>\<open>strangeAnswerLength\<close>.\<close>

definition sameIds :: "nat \<Rightarrow> string" where
  "sameIds n = ''cell''"

definition clearedRun :: "Event list" where
  "clearedRun = [TypeBaseNames ''foo'', TypeTlds ''com'', ClickSubmit 1000 sameIds, ClickClear,
                 CheckSettles 0 nxdomainEverywhere, FinallyRuns 2000]"

definition supersededRun :: "Event list" where
  "supersededRun = [TypeBaseNames ''foo'', TypeTlds ''com'', ClickSubmit 1000 sameIds, ClickClear,
                    TypeBaseNames ''foo bar'', TypeTlds ''com'', ClickSubmit 1500 sameIds,
                    CheckSettles 0 noerrorFromCloudflareA, FinallyRuns 2000, TimerFires]"

definition overtakenRun :: "Event list" where
  "overtakenRun = [TypeBaseNames ''foo'', TypeTlds ''com'', ClickSubmit 1000 sameIds, ClickClear,
                   TypeBaseNames ''bar'', TypeTlds ''com'', ClickSubmit 1500 sameIds,
                   CheckSettles 0 nxdomainEverywhere, FinallyRuns 2000]"

definition rejectedRun :: "Event list" where
  "rejectedRun = [TypeBaseNames ''foo'', TypeTlds ''com'', ClickSubmit 1000 sameIds,
                  CheckSettles 0 strangeAnswerLength]"

definition constructorRun :: "Event list" where
  "constructorRun = [TypeBaseNames ''constructor foo'', TypeTlds ''com'', ClickSubmit 1000 sameIds,
                     CheckSettles 0 nxdomainEverywhere, FinallyRuns 2000, TimerFires,
                     CheckSettles 0 nxdomainEverywhere]"

text \<open>Rows for sorting by the column \<^verbatim>\<open>com\<close>, and a collation by code units.\<close>

fun codeUnitCompare :: "string \<Rightarrow> string \<Rightarrow> int" where
  "codeUnitCompare [] [] = 0"
| "codeUnitCompare [] (y # ys) = - 1"
| "codeUnitCompare (x # xs) [] = 1"
| "codeUnitCompare (x # xs) (y # ys) =
     (if code x < code y then - 1 else if code y < code x then 1 else codeUnitCompare xs ys)"

definition rowWithoutCom :: ProcessedBaseNameResult where
  "rowWithoutCom = \<lparr>baseName = ''alpha'',
     tldResults = [\<lparr>tld = ''net'', cell_status = AVAILABLE, cell_reason = None, cell_id = ''cell-1''\<rparr>]\<rparr>"

definition rowTakenCom :: ProcessedBaseNameResult where
  "rowTakenCom = \<lparr>baseName = ''beta'',
     tldResults = [\<lparr>tld = ''com'', cell_status = TAKEN, cell_reason = None, cell_id = ''cell-2''\<rparr>]\<rparr>"

definition rowAvailableCom :: ProcessedBaseNameResult where
  "rowAvailableCom = \<lparr>baseName = ''gamma'',
     tldResults = [\<lparr>tld = ''com'', cell_status = AVAILABLE, cell_reason = None, cell_id = ''cell-3''\<rparr>]\<rparr>"

text \<open>A form with 225 base names and 225 TLDs: 50625 combinations.\<close>

definition letters :: string where
  "letters = ''abcdefghijklmno''"

definition twoLetterNames :: "string list" where
  "twoLetterNames = map (\<lambda>(a, b). [a, b]) (List.product letters letters)"

definition crowdedForm :: AppState where
  "crowdedForm = initialState
     \<lparr>baseNamesInput := concat (map (\<lambda>w. w @ '' '') twoLetterNames),
      tldsInput := concat (map (\<lambda>w. w @ '','') twoLetterNames)\<rparr>"

section \<open>Classification of one domain\<close>

lemma makeDohQuery_resolves: "\<exists>r. makeDohQuery net provider domain rt = Inr r"
  by (simp add: makeDohQuery_def Let_def split: sum.split)

lemma promiseAll_resolves:
  "(\<And>p. p \<in> set ps \<Longrightarrow> \<exists>x. p = Inr x) \<Longrightarrow> promiseAll ps = Inr (map projr ps)"
proof (induction ps)
  case Nil
  then show ?case by simp
next
  case (Cons p ps)
  then obtain x where "p = Inr x" by auto
  with Cons show ?case by simp
qed

lemma queryResults_resolve:
  "promiseAll (queryResults net domain) = Inr (map projr (queryResults net domain))"
  by (rule promiseAll_resolves) (auto simp: queryResults_def makeDohQuery_resolves)

lemma set_projr_queryResults:
  "set (map projr (queryResults net domain)) = {res. Inr res \<in> set (queryResults net domain)}"
proof -
  have "\<And>p. p \<in> set (queryResults net domain) \<Longrightarrow> \<exists>x. p = Inr x"
    by (auto simp: queryResults_def makeDohQuery_resolves)
  then show ?thesis by force
qed

lemma collect_cases:
  assumes "\<forall>p \<in> set ps. (\<exists>x. p = Inr x) \<or> p = Inl e"
  shows "if \<forall>p \<in> set ps. \<exists>x. p = Inr x then \<exists>xs. collect ps = Inr xs else collect ps = Inl e"
  using assms
proof (induction ps)
  case Nil
  then show ?case by simp
next
  case (Cons p ps)
  show ?case
  proof (cases p)
    case (Inl e')
    with Cons.prems have "e' = e" by auto
    with Inl show ?thesis by simp
  next
    case (Inr x)
    from Cons.prems have "\<forall>p \<in> set ps. (\<exists>x. p = Inr x) \<or> p = Inl e" by simp
    from Cons.IH [OF this] Inr show ?thesis
      by (cases "\<forall>p \<in> set ps. \<exists>x. p = Inr x") auto
  qed
qed

lemma toStringJs_cases:
  "if convertible v then \<exists>s. toStringJs v = Inr s
   else toStringJs v = Inl (ErrorObject toPrimitiveMessage)"
proof (induction v rule: toStringJs.induct)
  case (5 xs)
  let ?ps = "map (\<lambda>x. if x = JNull then Inr [] else toStringJs x) xs"
  have each: "\<forall>p \<in> set ?ps. (\<exists>x. p = Inr x) \<or> p = Inl (ErrorObject toPrimitiveMessage)"
  proof
    fix p assume "p \<in> set ?ps"
    then obtain x where x: "x \<in> set xs" "p = (if x = JNull then Inr [] else toStringJs x)"
      by auto
    with 5 [of x] show "(\<exists>x. p = Inr x) \<or> p = Inl (ErrorObject toPrimitiveMessage)"
      by (cases "x = JNull") (auto split: if_splits)
  qed
  have all: "(\<forall>p \<in> set ?ps. \<exists>x. p = Inr x) = list_all convertible xs"
  proof
    assume a: "\<forall>p \<in> set ?ps. \<exists>x. p = Inr x"
    show "list_all convertible xs"
      unfolding list_all_iff
    proof
      fix x assume x: "x \<in> set xs"
      show "convertible x"
      proof (cases "x = JNull")
        case True
        then show ?thesis by simp
      next
        case False
        from x a have "\<exists>y. (if x = JNull then Inr [] else toStringJs x) = Inr y" by auto
        with False 5 [OF x False] show ?thesis by (auto split: if_splits)
      qed
    qed
  next
    assume a: "list_all convertible xs"
    show "\<forall>p \<in> set ?ps. \<exists>x. p = Inr x"
    proof
      fix p assume "p \<in> set ?ps"
      then obtain x where x: "x \<in> set xs" "p = (if x = JNull then Inr [] else toStringJs x)"
        by auto
      from a x(1) have "convertible x" by (simp add: list_all_iff)
      with x 5 [of x] show "\<exists>x. p = Inr x" by (cases "x = JNull") auto
    qed
  qed
  from collect_cases [OF each] all show ?case
    by (auto split: sum.split)
qed simp_all

lemma greaterThanZero_cases:
  "if convertible v then \<exists>b. greaterThanZero positive v = Inr b
   else greaterThanZero positive v = Inl (ErrorObject toPrimitiveMessage)"
  using toStringJs_cases [of v]
  by (cases v) (auto simp: greaterThanZero_def split: sum.split if_splits)

lemma tallyStep_cases:
  "if readable res
   then \<exists>t'. tallyStep positive t res = Inr t'
          \<and> (takenReasons t' \<noteq> []) = (takenReasons t \<noteq> [] \<or> noError res)
          \<and> allQueriesReportNxDomain t' = (allQueriesReportNxDomain t \<and> nxDomain res)
   else tallyStep positive t res = Inl (ErrorObject toPrimitiveMessage)"
proof (cases "noError res")
  case True
  with greaterThanZero_cases [of "answerLength (data res)" positive] show ?thesis
    by (auto simp: tallyStep_def readable_def noError_def nxDomain_def split: sum.split if_splits)
next
  case False
  note no = this
  show ?thesis
  proof (cases "nxDomain res")
    case True
    with no show ?thesis
      by (simp add: tallyStep_def readable_def noError_def nxDomain_def)
  next
    case False
    show ?thesis
    proof (cases "case error res of Some e \<Rightarrow> e \<noteq> [] | None \<Rightarrow> False")
      case True
      with no False show ?thesis
        by (auto simp: tallyStep_def readable_def noError_def split: option.splits)
    next
      case noMessage: False
      show ?thesis
      proof (cases "dnsStatus res")
        case None
        with no False noMessage show ?thesis
          by (auto simp: tallyStep_def readable_def noError_def split: option.splits)
      next
        case (Some st)
        with no False noMessage toStringJs_cases [of st] show ?thesis
          by (auto simp: tallyStep_def readable_def noError_def split: option.splits if_splits)
      qed
    qed
  qed
qed

lemma tallyAll_cases:
  "if list_all readable rs
   then \<exists>t'. tallyAll positive t rs = Inr t'
          \<and> (takenReasons t' \<noteq> []) = (takenReasons t \<noteq> [] \<or> (\<exists>r \<in> set rs. noError r))
          \<and> allQueriesReportNxDomain t'
              = (allQueriesReportNxDomain t \<and> (\<forall>r \<in> set rs. nxDomain r))
   else tallyAll positive t rs = Inl (ErrorObject toPrimitiveMessage)"
proof (induction rs arbitrary: t)
  case Nil
  then show ?case by simp
next
  case (Cons r rs)
  show ?case
  proof (cases "readable r")
    case False
    with tallyStep_cases [of r positive t] show ?thesis by simp
  next
    case True
    with tallyStep_cases [of r positive t] obtain t1 where t1:
      "tallyStep positive t r = Inr t1"
      "(takenReasons t1 \<noteq> []) = (takenReasons t \<noteq> [] \<or> noError r)"
      "allQueriesReportNxDomain t1 = (allQueriesReportNxDomain t \<and> nxDomain r)"
      by auto
    show ?thesis
    proof (cases "list_all readable rs")
      case False
      with Cons [of t1] t1 True show ?thesis by simp
    next
      case all: True
      with Cons [of t1] obtain t' where t':
        "tallyAll positive t1 rs = Inr t'"
        "(takenReasons t' \<noteq> []) = (takenReasons t1 \<noteq> [] \<or> (\<exists>r \<in> set rs. noError r))"
        "allQueriesReportNxDomain t'
              = (allQueriesReportNxDomain t1 \<and> (\<forall>r \<in> set rs. nxDomain r))"
        by auto
      from t1 t' have "tallyAll positive t (r # rs) = Inr t'" by simp
      moreover from t1 t' have
        "(takenReasons t' \<noteq> []) = (takenReasons t \<noteq> [] \<or> (\<exists>x \<in> set (r # rs). noError x))"
        by auto
      moreover from t1 t' have
        "allQueriesReportNxDomain t'
              = (allQueriesReportNxDomain t \<and> (\<forall>x \<in> set (r # rs). nxDomain x))"
        by auto
      ultimately show ?thesis using True all by simp
    qed
  qed
qed

lemma classify_cases:
  "if list_all readable rs
   then \<exists>r. classify positive rs
          = Inr \<lparr>status = (if \<exists>r \<in> set rs. noError r then TAKEN
                           else if \<forall>r \<in> set rs. nxDomain r then AVAILABLE else TAKEN),
                 reason = r\<rparr>
   else classify positive rs = Inl (ErrorObject toPrimitiveMessage)"
proof (cases "list_all readable rs")
  case False
  with tallyAll_cases [of rs positive] show ?thesis
    by (simp add: classify_def tally_def)
next
  case True
  with tallyAll_cases [of rs positive
      "\<lparr>takenReasons = [], allQueriesReportNxDomain = True, allQueryDetails = []\<rparr>"]
  obtain t' where t': "tally positive rs = Inr t'"
      "(takenReasons t' \<noteq> []) = (\<exists>r \<in> set rs. noError r)"
      "allQueriesReportNxDomain t' = (\<forall>r \<in> set rs. nxDomain r)"
    by (auto simp: tally_def)
  show ?thesis
  proof (cases "\<exists>r \<in> set rs. noError r")
    case noerror: True
    with t' have "takenReasons t' \<noteq> []" by simp
    with t'(1) True noerror show ?thesis by (simp add: classify_def)
  next
    case False
    with t' have "takenReasons t' = []" by simp
    with t'(1,3) True False show ?thesis by (simp add: classify_def)
  qed
qed

lemma checkDomain_valid:
  "valid (isValidDomainFormat domain) \<Longrightarrow>
     checkDomain host domain
       = classify (parsesPositive host) (map projr (queryResults (network host) domain))"
  by (simp add: checkDomain_def Let_def queryResults_resolve)

lemma readable_results:
  "list_all readable (map projr (queryResults net domain))
     = (\<forall>r. Inr r \<in> set (queryResults net domain) \<longrightarrow> readable r)"
  using set_projr_queryResults [of net domain] unfolding list_all_iff by blast

lemma checkDomain_cases:
  assumes "valid (isValidDomainFormat domain)"
  shows "if \<forall>r. Inr r \<in> set (queryResults (network host) domain) \<longrightarrow> readable r
         then \<exists>r. checkDomain host domain
                = Inr \<lparr>status =
                         (if \<exists>res. Inr res \<in> set (queryResults (network host) domain)
                                    \<and> dnsStatus res = Some (JNumber (Integer 0)) then TAKEN
                          else if \<forall>res. Inr res \<in> set (queryResults (network host) domain)
                                    \<longrightarrow> dnsStatus res = Some (JNumber (Integer 3))
                          then AVAILABLE else TAKEN),
                       reason = r\<rparr>
         else checkDomain host domain = Inl (ErrorObject toPrimitiveMessage)"
proof -
  let ?rs = "map projr (queryResults (network host) domain)"
  have mem: "\<And>r. r \<in> set ?rs \<longleftrightarrow> Inr r \<in> set (queryResults (network host) domain)"
    using set_projr_queryResults [of "network host" domain] by auto
  have 0: "(\<exists>r \<in> set ?rs. noError r)
      = (\<exists>res. Inr res \<in> set (queryResults (network host) domain)
               \<and> dnsStatus res = Some (JNumber (Integer 0)))"
    using mem unfolding noError_def by blast
  have 3: "(\<forall>r \<in> set ?rs. nxDomain r)
      = (\<forall>res. Inr res \<in> set (queryResults (network host) domain)
               \<longrightarrow> dnsStatus res = Some (JNumber (Integer 3)))"
    using mem unfolding nxDomain_def by blast
  from classify_cases [of ?rs "parsesPositive host"] show ?thesis
    unfolding checkDomain_valid [OF assms] readable_results 0 3 .
qed

lemma queryPlan_four:
  "map (\<lambda>(p, rt). (name p, rt)) queryPlan =
     [(''Cloudflare'', A), (''Cloudflare'', NS), (''Google'', A), (''Google'', NS)]"
  by (simp add: queryPlan_def providers_def)

lemma valid_foo_com: "valid (isValidDomainFormat ''foo.com'')"
  by code_simp

lemma urls_foo_com:
  "urlPattern (providers ! 0) ''foo.com'' A = ''https://cloudflare-dns.com/dns-query?name=foo.com&type=A''"
  "urlPattern (providers ! 0) ''foo.com'' NS = ''https://cloudflare-dns.com/dns-query?name=foo.com&type=NS''"
  "urlPattern (providers ! Suc 0) ''foo.com'' A = ''https://dns.google/resolve?name=foo.com&type=A''"
  "urlPattern (providers ! Suc 0) ''foo.com'' NS = ''https://dns.google/resolve?name=foo.com&type=NS''"
  by code_simp+

lemma queryResults_four:
  "queryResults net domain =
     [makeDohQuery net (providers ! 0) domain A, makeDohQuery net (providers ! 0) domain NS,
      makeDohQuery net (providers ! Suc 0) domain A, makeDohQuery net (providers ! Suc 0) domain NS]"
  by (simp add: queryResults_def queryPlan_def providers_def)

lemma names_of_providers:
  "name (providers ! 0) = ''Cloudflare''" "name (providers ! Suc 0) = ''Google''"
  by (simp_all add: providers_def)

lemmas fetching =
  queryResults_four makeDohQuery_def dohTry_def readStatus_def readStatusOpt_def getProperty_def
  own_def urls_foo_com names_of_providers answers_def answersWith_def Let_def

lemma queryResults_noerror:
  "queryResults (network noerrorFromCloudflareA) ''foo.com'' =
    [Inr \<lparr>providerName = ''Cloudflare'', recordType = A, dnsStatus = Some (JNumber (Integer 0)),
          data = Some (JObject [(''Status'', JNumber (Integer 0))]), error = None\<rparr>,
     Inr \<lparr>providerName = ''Cloudflare'', recordType = NS, dnsStatus = Some (JNumber (Integer 3)),
          data = Some (JObject [(''Status'', JNumber (Integer 3))]), error = None\<rparr>,
     Inr \<lparr>providerName = ''Google'', recordType = A, dnsStatus = Some (JNumber (Integer 3)),
          data = Some (JObject [(''Status'', JNumber (Integer 3))]), error = None\<rparr>,
     Inr \<lparr>providerName = ''Google'', recordType = NS, dnsStatus = Some (JNumber (Integer 3)),
          data = Some (JObject [(''Status'', JNumber (Integer 3))]), error = None\<rparr>]"
  by (simp add: fetching noerrorFromCloudflareA_def)

lemma queryResults_nxdomain:
  "queryResults (network nxdomainEverywhere) ''foo.com'' =
    [Inr \<lparr>providerName = ''Cloudflare'', recordType = A, dnsStatus = Some (JNumber (Integer 3)),
          data = Some (JObject [(''Status'', JNumber (Integer 3))]), error = None\<rparr>,
     Inr \<lparr>providerName = ''Cloudflare'', recordType = NS, dnsStatus = Some (JNumber (Integer 3)),
          data = Some (JObject [(''Status'', JNumber (Integer 3))]), error = None\<rparr>,
     Inr \<lparr>providerName = ''Google'', recordType = A, dnsStatus = Some (JNumber (Integer 3)),
          data = Some (JObject [(''Status'', JNumber (Integer 3))]), error = None\<rparr>,
     Inr \<lparr>providerName = ''Google'', recordType = NS, dnsStatus = Some (JNumber (Integer 3)),
          data = Some (JObject [(''Status'', JNumber (Integer 3))]), error = None\<rparr>]"
  by (simp add: fetching nxdomainEverywhere_def)

lemma queryResults_unreachable:
  "queryResults (network unreachable) ''foo.com'' =
    [Inr \<lparr>providerName = ''Cloudflare'', recordType = A, dnsStatus = None, data = None, error = Some ''Failed to fetch''\<rparr>,
     Inr \<lparr>providerName = ''Cloudflare'', recordType = NS, dnsStatus = None, data = None, error = Some ''Failed to fetch''\<rparr>,
     Inr \<lparr>providerName = ''Google'', recordType = A, dnsStatus = None, data = None, error = Some ''Failed to fetch''\<rparr>,
     Inr \<lparr>providerName = ''Google'', recordType = NS, dnsStatus = None, data = None, error = Some ''Failed to fetch''\<rparr>]"
  by (simp add: fetching unreachable_def)

lemma queryResults_strange:
  "queryResults (network strangeEverywhere) ''foo.com'' =
    [Inr \<lparr>providerName = ''Cloudflare'', recordType = A, dnsStatus = Some strangeValue,
          data = Some (JObject [(''Status'', strangeValue)]), error = None\<rparr>,
     Inr \<lparr>providerName = ''Cloudflare'', recordType = NS, dnsStatus = Some strangeValue,
          data = Some (JObject [(''Status'', strangeValue)]), error = None\<rparr>,
     Inr \<lparr>providerName = ''Google'', recordType = A, dnsStatus = Some strangeValue,
          data = Some (JObject [(''Status'', strangeValue)]), error = None\<rparr>,
     Inr \<lparr>providerName = ''Google'', recordType = NS, dnsStatus = Some strangeValue,
          data = Some (JObject [(''Status'', strangeValue)]), error = None\<rparr>]"
  by (simp add: fetching strangeEverywhere_def)

lemma queryResults_noerror_strange:
  "queryResults (network noerrorAmongStrange) ''foo.com'' =
    [Inr \<lparr>providerName = ''Cloudflare'', recordType = A, dnsStatus = Some (JNumber (Integer 0)),
          data = Some (JObject [(''Status'', JNumber (Integer 0))]), error = None\<rparr>,
     Inr \<lparr>providerName = ''Cloudflare'', recordType = NS, dnsStatus = Some strangeValue,
          data = Some (JObject [(''Status'', strangeValue)]), error = None\<rparr>,
     Inr \<lparr>providerName = ''Google'', recordType = A, dnsStatus = Some strangeValue,
          data = Some (JObject [(''Status'', strangeValue)]), error = None\<rparr>,
     Inr \<lparr>providerName = ''Google'', recordType = NS, dnsStatus = Some strangeValue,
          data = Some (JObject [(''Status'', strangeValue)]), error = None\<rparr>]"
  by (simp add: fetching noerrorAmongStrange_def)

lemma strangeValue_facts:
  "\<not> convertible strangeValue" "strangeValue \<noteq> JNumber (Integer 0)"
  "strangeValue \<noteq> JNumber (Integer 3)" "strangeValue \<noteq> JNull"
  by (simp_all add: strangeValue_def own_def)

lemmas reading = readable_def answerLength_def getProperty_def own_def strangeValue_facts

text \<open>
  C1. For a domain that passes the format validation: if one of the four query
  results (Cloudflare and Google, A and NS) reports DNS status 0, \<^verbatim>\<open>checkDomain\<close>
  resolves to an outcome with status Taken when every result is readable, and
  rejects with a \<^verbatim>\<open>TypeError\<close> when one is not.
\<close>

theorem checkDomain_noerror_taken:
  assumes "valid (isValidDomainFormat domain)"
    and "Inr res \<in> set (queryResults (network host) domain)"
    and "dnsStatus res = Some (JNumber (Integer 0))"
  shows "if \<forall>r. Inr r \<in> set (queryResults (network host) domain) \<longrightarrow> readable r
         then \<exists>outcome. checkDomain host domain = Inr outcome \<and> status outcome = TAKEN
         else checkDomain host domain = Inl (ErrorObject toPrimitiveMessage)"
proof -
  from assms(2,3) have "\<exists>res. Inr res \<in> set (queryResults (network host) domain)
      \<and> dnsStatus res = Some (JNumber (Integer 0))" by blast
  with checkDomain_cases [OF assms(1), of host] show ?thesis
    by (cases "\<forall>r. Inr r \<in> set (queryResults (network host) domain) \<longrightarrow> readable r") auto
qed

theorem checkDomain_noerror_taken_witness:
  "(\<exists>outcome. checkDomain noerrorFromCloudflareA ''foo.com'' = Inr outcome \<and> status outcome = TAKEN)
   \<and> checkDomain noerrorAmongStrange ''foo.com'' = Inl (ErrorObject toPrimitiveMessage)"
proof -
  have 1: "Inr \<lparr>providerName = ''Cloudflare'', recordType = A, dnsStatus = Some (JNumber (Integer 0)),
          data = Some (JObject [(''Status'', JNumber (Integer 0))]), error = None\<rparr>
       \<in> set (queryResults (network noerrorFromCloudflareA) ''foo.com'')"
    by (simp add: queryResults_noerror)
  have 2: "Inr \<lparr>providerName = ''Cloudflare'', recordType = A, dnsStatus = Some (JNumber (Integer 0)),
          data = Some (JObject [(''Status'', JNumber (Integer 0))]), error = None\<rparr>
       \<in> set (queryResults (network noerrorAmongStrange) ''foo.com'')"
    by (simp add: queryResults_noerror_strange)
  have all: "\<forall>r. Inr r \<in> set (queryResults (network noerrorFromCloudflareA) ''foo.com'') \<longrightarrow> readable r"
    by (auto simp: queryResults_noerror reading)
  have some: "\<not> (\<forall>r. Inr r \<in> set (queryResults (network noerrorAmongStrange) ''foo.com'') \<longrightarrow> readable r)"
    by (auto simp: queryResults_noerror_strange reading)
  show ?thesis
    using checkDomain_noerror_taken [OF valid_foo_com 1] checkDomain_noerror_taken [OF valid_foo_com 2]
      all some
    by simp
qed

text \<open>
  The claim C1 as it stands, Taken whatever the other queries report, fails on
  \<^term>\<open>noerrorAmongStrange\<close>: Cloudflare answers the A query with status 0, the
  three other answers carry a \<^verbatim>\<open>Status\<close> that has no string, and the promise
  of \<^verbatim>\<open>checkDomain\<close> rejects.
\<close>

theorem noerror_among_strange_rejected:
  "valid (isValidDomainFormat ''foo.com'')
   \<and> map (map_sum id dnsStatus) (queryResults (network noerrorAmongStrange) ''foo.com'')
       = [Inr (Some (JNumber (Integer 0))), Inr (Some strangeValue), Inr (Some strangeValue),
          Inr (Some strangeValue)]
   \<and> checkDomain noerrorAmongStrange ''foo.com'' = Inl (ErrorObject toPrimitiveMessage)"
proof -
  have "\<not> (\<forall>r. Inr r \<in> set (queryResults (network noerrorAmongStrange) ''foo.com'') \<longrightarrow> readable r)"
    by (auto simp: queryResults_noerror_strange reading)
  with checkDomain_cases [OF valid_foo_com, of noerrorAmongStrange]
  have "checkDomain noerrorAmongStrange ''foo.com'' = Inl (ErrorObject toPrimitiveMessage)"
    by simp
  then show ?thesis
    by (simp add: valid_foo_com queryResults_noerror_strange)
qed

text \<open>
  C2. For a domain that passes the format validation and has no query result with
  DNS status 0: when every result is readable, \<^verbatim>\<open>checkDomain\<close> resolves to
  Available if every one of the four results reports DNS status 3, and to Taken
  otherwise; when a result is not readable, it rejects with a \<^verbatim>\<open>TypeError\<close>. A
  result reports the status in its \<^verbatim>\<open>dnsStatus\<close> field, which an HTTP error
  result carries too when the body parsed.
\<close>

theorem checkDomain_without_noerror:
  assumes "valid (isValidDomainFormat domain)"
    and "\<forall>res. Inr res \<in> set (queryResults (network host) domain)
            \<longrightarrow> dnsStatus res \<noteq> Some (JNumber (Integer 0))"
  shows "if \<forall>r. Inr r \<in> set (queryResults (network host) domain) \<longrightarrow> readable r
         then \<exists>outcome. checkDomain host domain = Inr outcome \<and>
                status outcome =
                  (if \<forall>res. Inr res \<in> set (queryResults (network host) domain)
                         \<longrightarrow> dnsStatus res = Some (JNumber (Integer 3))
                   then AVAILABLE else TAKEN)
         else checkDomain host domain = Inl (ErrorObject toPrimitiveMessage)"
proof -
  from assms(2) have "\<not> (\<exists>res. Inr res \<in> set (queryResults (network host) domain)
      \<and> dnsStatus res = Some (JNumber (Integer 0)))" by blast
  with checkDomain_cases [OF assms(1), of host] show ?thesis
    by (cases "\<forall>r. Inr r \<in> set (queryResults (network host) domain) \<longrightarrow> readable r") auto
qed

theorem checkDomain_without_noerror_witness:
  "(\<exists>outcome. checkDomain nxdomainEverywhere ''foo.com'' = Inr outcome \<and> status outcome = AVAILABLE)
   \<and> (\<exists>outcome. checkDomain unreachable ''foo.com'' = Inr outcome \<and> status outcome = TAKEN)
   \<and> checkDomain strangeEverywhere ''foo.com'' = Inl (ErrorObject toPrimitiveMessage)"
proof -
  have nx: "\<forall>res. Inr res \<in> set (queryResults (network nxdomainEverywhere) ''foo.com'')
      \<longrightarrow> dnsStatus res = Some (JNumber (Integer 3))"
    by (auto simp: queryResults_nxdomain)
  then have nx0: "\<forall>res. Inr res \<in> set (queryResults (network nxdomainEverywhere) ''foo.com'')
      \<longrightarrow> dnsStatus res \<noteq> Some (JNumber (Integer 0))"
    by auto
  have nxr: "\<forall>r. Inr r \<in> set (queryResults (network nxdomainEverywhere) ''foo.com'') \<longrightarrow> readable r"
    by (auto simp: queryResults_nxdomain reading)
  have un0: "\<forall>res. Inr res \<in> set (queryResults (network unreachable) ''foo.com'')
      \<longrightarrow> dnsStatus res \<noteq> Some (JNumber (Integer 0))"
    by (auto simp: queryResults_unreachable)
  have un: "\<not> (\<forall>res. Inr res \<in> set (queryResults (network unreachable) ''foo.com'')
      \<longrightarrow> dnsStatus res = Some (JNumber (Integer 3)))"
    by (auto simp: queryResults_unreachable)
  have unr: "\<forall>r. Inr r \<in> set (queryResults (network unreachable) ''foo.com'') \<longrightarrow> readable r"
    by (auto simp: queryResults_unreachable reading)
  have st0: "\<forall>res. Inr res \<in> set (queryResults (network strangeEverywhere) ''foo.com'')
      \<longrightarrow> dnsStatus res \<noteq> Some (JNumber (Integer 0))"
    by (auto simp: queryResults_strange strangeValue_facts)
  have str: "\<not> (\<forall>r. Inr r \<in> set (queryResults (network strangeEverywhere) ''foo.com'') \<longrightarrow> readable r)"
    by (auto simp: queryResults_strange reading)
  show ?thesis
    using checkDomain_without_noerror [OF valid_foo_com nx0]
          checkDomain_without_noerror [OF valid_foo_com un0]
          checkDomain_without_noerror [OF valid_foo_com st0] nx un nxr unr str
    by simp
qed

text \<open>
  The claim C2 as it stands fails on \<^term>\<open>strangeEverywhere\<close>: no result has
  status 0, not every result has status 3, and the promise of \<^verbatim>\<open>checkDomain\<close>
  rejects, where the claim has it resolve to Taken.
\<close>

theorem strange_status_rejected:
  "valid (isValidDomainFormat ''foo.com'')
   \<and> map (map_sum id dnsStatus) (queryResults (network strangeEverywhere) ''foo.com'')
       = [Inr (Some strangeValue), Inr (Some strangeValue), Inr (Some strangeValue),
          Inr (Some strangeValue)]
   \<and> strangeValue \<noteq> JNumber (Integer 0)
   \<and> checkDomain strangeEverywhere ''foo.com'' = Inl (ErrorObject toPrimitiveMessage)"
proof -
  have "\<not> (\<forall>r. Inr r \<in> set (queryResults (network strangeEverywhere) ''foo.com'') \<longrightarrow> readable r)"
    by (auto simp: queryResults_strange reading)
  with checkDomain_cases [OF valid_foo_com, of strangeEverywhere]
  have "checkDomain strangeEverywhere ''foo.com'' = Inl (ErrorObject toPrimitiveMessage)"
    by simp
  then show ?thesis
    by (simp add: valid_foo_com queryResults_strange strangeValue_facts)
qed

text \<open>
  C3. For a string that fails the format validation, \<^verbatim>\<open>checkDomain\<close> fetches
  nothing and resolves to status Invalid with the validator's message as reason.
  The validation fails exactly when the trimmed, lower-cased string breaks one
  of the conditions of \<open>isValidDomainFormat_valid_iff\<close>.
\<close>

theorem checkDomain_invalid:
  assumes "\<not> valid (isValidDomainFormat domain)"
  shows "checkDomainFetches domain = []
         \<and> (\<exists>msg. vreason (isValidDomainFormat domain) = Some msg
                \<and> checkDomain net domain = Inr \<lparr>status = INVALID, reason = Some msg\<rparr>)"
proof -
  from assms have "\<exists>msg. vreason (isValidDomainFormat domain) = Some msg"
    by (auto simp: isValidDomainFormat_def invalid_def Let_def split: if_splits)
  with assms show ?thesis
    by (auto simp: checkDomainFetches_def checkDomain_def Let_def)
qed

lemma invalid_bad_com:
  "isValidDomainFormat ''-bad.com'' = \<lparr>valid = False, vreason = Some ''Labels cannot start or end with a hyphen.''\<rparr>"
  by code_simp

theorem checkDomain_invalid_witness:
  "checkDomainFetches ''-bad.com'' = []
   \<and> checkDomain unreachable ''-bad.com''
       = Inr \<lparr>status = INVALID, reason = Some ''Labels cannot start or end with a hyphen.''\<rparr>"
  using checkDomain_invalid [of "''-bad.com''" unreachable] by (simp add: invalid_bad_com)

lemma nxdomain_result:
  "\<exists>d. makeDohQuery (network nxdomainEverywhere) provider domain rt
         = Inr \<lparr>providerName = name provider, recordType = rt,
                dnsStatus = Some (JNumber (Integer 3)), data = d, error = None\<rparr>"
  by (simp add: makeDohQuery_def dohTry_def nxdomainEverywhere_def answers_def answersWith_def
      readStatus_def getProperty_def own_def Let_def)

lemma nxdomain_available:
  assumes "valid (isValidDomainFormat domain)"
  shows "\<exists>r. checkDomain nxdomainEverywhere domain = Inr \<lparr>status = AVAILABLE, reason = r\<rparr>"
proof -
  have 3: "\<forall>res. Inr res \<in> set (queryResults (network nxdomainEverywhere) domain)
      \<longrightarrow> dnsStatus res = Some (JNumber (Integer 3))"
  proof (intro allI impI)
    fix res assume "Inr res \<in> set (queryResults (network nxdomainEverywhere) domain)"
    then obtain provider rt where
      "Inr res = makeDohQuery (network nxdomainEverywhere) provider domain rt"
      by (auto simp: queryResults_def)
    with nxdomain_result [of provider domain rt]
    show "dnsStatus res = Some (JNumber (Integer 3))" by auto
  qed
  then have r: "\<forall>r. Inr r \<in> set (queryResults (network nxdomainEverywhere) domain) \<longrightarrow> readable r"
    by (simp add: readable_def)
  from 3 have 0: "\<not> (\<exists>res. Inr res \<in> set (queryResults (network nxdomainEverywhere) domain)
      \<and> dnsStatus res = Some (JNumber (Integer 0)))"
    by auto
  from checkDomain_cases [OF assms, of nxdomainEverywhere] r 0 3 show ?thesis
    by simp
qed

lemma noerror_taken:
  "\<exists>r. checkDomain noerrorFromCloudflareA ''foo.com'' = Inr \<lparr>status = TAKEN, reason = r\<rparr>"
proof -
  have r: "\<forall>r. Inr r \<in> set (queryResults (network noerrorFromCloudflareA) ''foo.com'') \<longrightarrow> readable r"
    by (auto simp: queryResults_noerror reading)
  have 0: "\<exists>res. Inr res \<in> set (queryResults (network noerrorFromCloudflareA) ''foo.com'')
      \<and> dnsStatus res = Some (JNumber (Integer 0))"
    by (intro exI [of _ "\<lparr>providerName = ''Cloudflare'', recordType = A,
          dnsStatus = Some (JNumber (Integer 0)),
          data = Some (JObject [(''Status'', JNumber (Integer 0))]), error = None\<rparr>"])
       (simp add: queryResults_noerror)
  from checkDomain_cases [OF valid_foo_com, of noerrorFromCloudflareA] r 0 show ?thesis
    by simp
qed

lemma isValidDomainFormat_valid_iff:
  "valid (isValidDomainFormat domain) =
    (let n = normalized domain; labels = split CHR ''.'' n in
     3 \<le> length n \<and> length n \<le> 253
     \<and> includesStr n ''.'' \<and> \<not> startsWith n ''.'' \<and> \<not> endsWith n ''.''
     \<and> list_all isDomainChar n \<and> \<not> includesStr n ''..''
     \<and> list_all (\<lambda>label. label \<noteq> [] \<and> length label \<le> 63
                          \<and> \<not> startsWith label ''-'' \<and> \<not> endsWith label ''-'') labels
     \<and> 2 \<le> length (last labels) \<and> \<not> allNumeric (last labels))"
proof -
  define n where "n = normalized domain"
  define labels where "labels = split CHR ''.'' n"
  have labels_ok:
    "list_all (\<lambda>label. label \<noteq> [] \<and> length label \<le> 63
                          \<and> \<not> startsWith label ''-'' \<and> \<not> endsWith label ''-'') labels
     = (\<not> list_ex (\<lambda>label. length label = 0 \<or> length label > 63) labels
        \<and> \<not> list_ex (\<lambda>label. startsWith label ''-'' \<or> endsWith label ''-'') labels)"
    by (auto simp: list_all_iff list_ex_iff not_less)
  have chars_ok: "list_all isDomainChar n = (\<not> list_ex (\<lambda>c. \<not> isDomainChar c) n)"
    unfolding list_all_iff list_ex_iff by blast
  have empty: "domain = [] \<Longrightarrow> length n < 3"
    by (simp add: n_def normalized_def trim_def toLowerCase_def)
  have "valid (isValidDomainFormat domain) =
     (3 \<le> length n \<and> length n \<le> 253
     \<and> includesStr n ''.'' \<and> \<not> startsWith n ''.'' \<and> \<not> endsWith n ''.''
     \<and> list_all isDomainChar n \<and> \<not> includesStr n ''..''
     \<and> list_all (\<lambda>label. label \<noteq> [] \<and> length label \<le> 63
                          \<and> \<not> startsWith label ''-'' \<and> \<not> endsWith label ''-'') labels
     \<and> 2 \<le> length (last labels) \<and> \<not> allNumeric (last labels))"
    unfolding labels_ok chars_ok
    using empty
    by (auto simp: isValidDomainFormat_def invalid_def Let_def n_def [symmetric] labels_def [symmetric]
        not_less allNumeric_def)
  then show ?thesis by (simp add: Let_def n_def labels_def)
qed

lemma readable_makeDohQuery:
  assumes "makeDohQuery net provider domain rt = Inr r"
  shows "readable r = (\<not> unreadableAnswer (net (urlPattern provider domain rt)))"
proof (cases "net (urlPattern provider domain rt)")
  case (Rejects e)
  with assms show ?thesis
    by (auto simp: makeDohQuery_def dohTry_def Let_def readable_def unreadableAnswer_def
        answerLength_def)
next
  case (Resolves response)
  show ?thesis
  proof (cases "json response")
    case (Inl e)
    with Resolves assms show ?thesis
      by (auto simp: makeDohQuery_def dohTry_def Let_def readable_def unreadableAnswer_def
          answerLength_def)
  next
    case (Inr body)
    show ?thesis
    proof (cases "ok response")
      case False
      with Resolves Inr assms show ?thesis
        by (auto simp: makeDohQuery_def dohTry_def Let_def readable_def unreadableAnswer_def
            answerLength_def)
    next
      case True
      show ?thesis
      proof (cases "body = JNull")
        case null: True
        with True Resolves Inr assms show ?thesis
          by (auto simp: makeDohQuery_def dohTry_def Let_def readable_def unreadableAnswer_def
              answerLength_def readStatus_def getProperty_def)
      next
        case False
        with True Resolves Inr assms show ?thesis
          by (auto simp: makeDohQuery_def dohTry_def Let_def readable_def unreadableAnswer_def
              readStatus_def split: option.splits)
      qed
    qed
  qed
qed

lemma readable_queryResults:
  "(\<forall>r. Inr r \<in> set (queryResults net domain) \<longrightarrow> readable r)
     = (\<not> list_ex (\<lambda>url. unreadableAnswer (net url)) (queryUrls domain))"
proof -
  have "(\<forall>r. Inr r \<in> set (queryResults net domain) \<longrightarrow> readable r)
     = (\<forall>(provider, rt) \<in> set queryPlan. \<not> unreadableAnswer (net (urlPattern provider domain rt)))"
  proof
    assume a: "\<forall>r. Inr r \<in> set (queryResults net domain) \<longrightarrow> readable r"
    show "\<forall>(provider, rt) \<in> set queryPlan. \<not> unreadableAnswer (net (urlPattern provider domain rt))"
    proof (clarify)
      fix provider rt
      assume p: "(provider, rt) \<in> set queryPlan"
        and u: "unreadableAnswer (net (urlPattern provider domain rt))"
      obtain r where r: "makeDohQuery net provider domain rt = Inr r"
        using makeDohQuery_resolves by blast
      with p have "Inr r \<in> set (queryResults net domain)"
        by (force simp: queryResults_def)
      with a have "readable r" by blast
      with readable_makeDohQuery [OF r] u show False by simp
    qed
  next
    assume a: "\<forall>(provider, rt) \<in> set queryPlan. \<not> unreadableAnswer (net (urlPattern provider domain rt))"
    show "\<forall>r. Inr r \<in> set (queryResults net domain) \<longrightarrow> readable r"
    proof (intro allI impI)
      fix r assume "Inr r \<in> set (queryResults net domain)"
      then obtain provider rt where p: "(provider, rt) \<in> set queryPlan"
        and r: "makeDohQuery net provider domain rt = Inr r"
        by (auto simp: queryResults_def)
      from a p have "\<not> unreadableAnswer (net (urlPattern provider domain rt))" by auto
      with readable_makeDohQuery [OF r] show "readable r" by simp
    qed
  qed
  then show ?thesis
    by (auto simp: queryUrls_def list_ex_iff)
qed

text \<open>
  C10. The promise of \<^verbatim>\<open>checkDomain\<close> rejects in one case only: the string passes
  the format validation and one of the four fetches comes back as an HTTP success
  with a body whose \<^verbatim>\<open>Status\<close> the loop cannot convert to a string, or whose
  \<^verbatim>\<open>Status\<close> is 0 with an answer length it cannot convert. Then the callback that
  runs on settlement is the \<^verbatim>\<open>catch\<close> one, which enqueues Invalid with the reason
  \<^verbatim>\<open>Error during check\<close>. In every other case, among them a failed validation, a
  rejected \<^verbatim>\<open>fetch\<close>, an HTTP error status, a body that does not parse and a
  \<^verbatim>\<open>null\<close> body, the promise resolves to an outcome and the \<^verbatim>\<open>then\<close> callback
  enqueues it.
\<close>

theorem checkDomain_rejects_unreadable:
  "if valid (isValidDomainFormat domain)
      \<and> list_ex (\<lambda>url. unreadableAnswer (network host url)) (queryUrls domain)
   then checkDomain host domain = Inl (ErrorObject toPrimitiveMessage)
        \<and> onSettled item (checkDomain host domain) s
            = s\<lparr>pendingCellUpdates := pendingCellUpdates s @
                  [\<lparr>upd_baseName = item_baseName item, upd_tld = item_tld item,
                    upd_status = INVALID, upd_reason = Some ''Error during check''\<rparr>]\<rparr>
   else \<exists>outcome. checkDomain host domain = Inr outcome
        \<and> onSettled item (checkDomain host domain) s
            = s\<lparr>pendingCellUpdates := pendingCellUpdates s @
                  [\<lparr>upd_baseName = item_baseName item, upd_tld = item_tld item,
                    upd_status = status outcome, upd_reason = reason outcome\<rparr>]\<rparr>"
proof (cases "valid (isValidDomainFormat domain)")
  case False
  then show ?thesis by (simp add: checkDomain_def Let_def onSettled_def)
next
  case True
  show ?thesis
  proof (cases "list_ex (\<lambda>url. unreadableAnswer (network host url)) (queryUrls domain)")
    case unreadable: True
    with checkDomain_cases [OF True, of host] readable_queryResults [of "network host" domain]
    have "checkDomain host domain = Inl (ErrorObject toPrimitiveMessage)" by simp
    with True unreadable show ?thesis by (simp add: onSettled_def)
  next
    case False
    with checkDomain_cases [OF True, of host] readable_queryResults [of "network host" domain]
    obtain outcome where "checkDomain host domain = Inr outcome" by auto
    with False show ?thesis by (simp add: onSettled_def)
  qed
qed

lemma urls_of_foo_com:
  "queryUrls ''foo.com'' =
     [''https://cloudflare-dns.com/dns-query?name=foo.com&type=A'',
      ''https://cloudflare-dns.com/dns-query?name=foo.com&type=NS'',
      ''https://dns.google/resolve?name=foo.com&type=A'',
      ''https://dns.google/resolve?name=foo.com&type=NS'']"
  by (simp add: queryUrls_def queryPlan_def urls_foo_com [unfolded providers_def, simplified]
      providers_def)

lemma unreadable_examples:
  "\<not> list_ex (\<lambda>url. unreadableAnswer (network nullBodies url)) (queryUrls ''foo.com'')"
  "list_ex (\<lambda>url. unreadableAnswer (network strangeAnswerLength url)) (queryUrls ''foo.com'')"
  by (simp_all add: urls_of_foo_com unreadableAnswer_def nullBodies_def strangeAnswerLength_def
      reading)

theorem checkDomain_rejects_unreadable_witness:
  "(\<exists>outcome. checkDomain nullBodies ''foo.com'' = Inr outcome)
   \<and> (\<exists>outcome. checkDomain unreachable ''-bad.com'' = Inr outcome)
   \<and> checkDomain strangeAnswerLength ''foo.com'' = Inl (ErrorObject toPrimitiveMessage)"
  using checkDomain_rejects_unreadable [of "''foo.com''" nullBodies
            "\<lparr>item_baseName = ''foo'', item_tld = ''com'', fullDomain = ''foo.com''\<rparr>" initialState]
        checkDomain_rejects_unreadable [of "''-bad.com''" unreachable
            "\<lparr>item_baseName = ''-bad'', item_tld = ''com'', fullDomain = ''-bad.com''\<rparr>" initialState]
        checkDomain_rejects_unreadable [of "''foo.com''" strangeAnswerLength
            "\<lparr>item_baseName = ''foo'', item_tld = ''com'', fullDomain = ''foo.com''\<rparr>" initialState]
  by (auto simp: valid_foo_com invalid_bad_com unreadable_examples)

section \<open>Submission\<close>

lemma plain_char:
  assumes "isLower c \<or> isDigit c"
  shows "\<not> isDelimiter c" "\<not> isWhiteSpace c" "c \<noteq> CHR 0x0A" "c \<noteq> CHR '',''" "c \<noteq> CHR ''.''"
    "c \<noteq> CHR ''-''" "lowerChar c = c" "isAlnum c"
  using assms
  by (auto simp: isLower_def isDigit_def isDelimiter_def isWhiteSpace_def lowerChar_def
      isUpper_def isAlnum_def code_def)

lemma plainWord_chars: "plainWord w \<Longrightarrow> c \<in> set w \<Longrightarrow> isLower c \<or> isDigit c"
  by (simp add: plainWord_def list_all_iff)

lemma plainWords_without:
  assumes "list_all plainWord ws" and "\<not> (isLower sep \<or> isDigit sep)"
  shows "\<forall>w \<in> set ws. sep \<notin> set w"
  using assms plainWord_chars by (fastforce simp: list_all_iff)

lemma normalizeDelimiters_word:
  "list_all (\<lambda>c. isLower c \<or> isDigit c) w \<Longrightarrow> (rest = [] \<or> \<not> isDelimiter (hd rest)) \<Longrightarrow>
   normalizeDelimiters (w @ '' '' @ rest) = w @ [CHR 0x0A] @ normalizeDelimiters rest"
proof (induction w)
  case Nil
  have "dropWhile isDelimiter rest = rest"
    using Nil(2) by (cases rest) auto
  then show ?case by (simp add: isDelimiter_def)
next
  case (Cons c w)
  then show ?case by (simp add: plain_char)
qed

lemma normalizeDelimiters_words:
  "list_all plainWord ws \<Longrightarrow>
   normalizeDelimiters (concat (map (\<lambda>w. w @ '' '') ws)) = concat (map (\<lambda>w. w @ [CHR 0x0A]) ws)"
proof (induction ws)
  case Nil
  then show ?case by simp
next
  case (Cons w ws)
  have "concat (map (\<lambda>w. w @ '' '') ws) = [] \<or> \<not> isDelimiter (hd (concat (map (\<lambda>w. w @ '' '') ws)))"
  proof (cases ws)
    case Nil
    then show ?thesis by simp
  next
    case (Cons v vs)
    with Cons.prems obtain c cs where "v = c # cs" "isLower c \<or> isDigit c"
      by (cases v) (auto simp: plainWord_def)
    then show ?thesis using Cons by (simp add: plain_char)
  qed
  with Cons show ?case
    using normalizeDelimiters_word [of w "concat (map (\<lambda>w. w @ '' '') ws)"]
    by (simp add: plainWord_def)
qed

lemma split_word:
  "sep \<notin> set w \<Longrightarrow> split sep (w @ sep # rest) = w # split sep rest"
  by (induction w) (auto split: list.split)

lemma split_words:
  "\<forall>w \<in> set ws. sep \<notin> set w \<Longrightarrow> split sep (concat (map (\<lambda>w. w @ [sep]) ws)) = ws @ [[]]"
  by (induction ws) (simp_all add: split_word)

lemma trim_plainWord: "plainWord w \<Longrightarrow> trim w = w"
proof -
  assume pw: "plainWord w"
  then obtain c cs where w: "w = c # cs" by (cases w) (auto simp: plainWord_def)
  from pw have all: "\<forall>x \<in> set w. \<not> isWhiteSpace x"
    by (auto simp: plainWord_def list_all_iff plain_char)
  then have 1: "dropWhile isWhiteSpace w = w" using w by simp
  from w have "rev w \<noteq> []" by simp
  then obtain d ds where r: "rev w = d # ds" by (cases "rev w") auto
  then have "d \<in> set w" by (metis list.set_intros(1) set_rev)
  with all have "\<not> isWhiteSpace d" by blast
  with r have "dropWhile isWhiteSpace (rev w) = rev w" by simp
  with 1 show ?thesis by (simp add: trim_def)
qed

lemma toLowerCase_plainWord: "plainWord w \<Longrightarrow> toLowerCase w = w"
  by (auto simp: plainWord_def toLowerCase_def list_all_iff plain_char intro: map_idI)

lemma indexOf_nth: "distinct xs \<Longrightarrow> i < length xs \<Longrightarrow> indexOf xs (xs ! i) = i"
proof (induction xs arbitrary: i)
  case Nil
  then show ?case by simp
next
  case (Cons x xs)
  then show ?case by (cases i) auto
qed

lemma firstOccurrences_distinct: "distinct xs \<Longrightarrow> firstOccurrences xs = xs"
proof -
  assume d: "distinct xs"
  have "filter (\<lambda>(index, v). indexOf xs v = index) (enumerate 0 xs) = enumerate 0 xs"
    by (rule filter_True) (auto simp: in_set_enumerate_eq indexOf_nth d)
  then show ?thesis by (simp add: firstOccurrences_def)
qed

lemma pieces_words:
  assumes "list_all plainWord ws"
  shows "filter (\<lambda>d. length d > 0) (map (\<lambda>d. toLowerCase (trim d)) (ws @ [[]])) = ws"
proof -
  have id: "map (\<lambda>d. toLowerCase (trim d)) ws = ws"
    using assms by (auto simp: list_all_iff trim_plainWord toLowerCase_plainWord intro: map_idI)
  have ne: "filter (\<lambda>d. length d > 0) ws = ws"
    using assms by (auto simp: list_all_iff plainWord_def)
  have e: "toLowerCase (trim []) = []"
    by (simp add: trim_def toLowerCase_def)
  have "map (\<lambda>d. toLowerCase (trim d)) (ws @ [[]]) = ws @ [[]]"
    using id e by simp
  then show ?thesis using ne by simp
qed

lemma uniqueBaseNames_words:
  assumes "list_all plainWord ws" and "distinct ws"
  shows "uniqueBaseNames (concat (map (\<lambda>w. w @ '' '') ws)) = ws"
proof -
  have nl: "\<forall>w \<in> set ws. CHR 0x0A \<notin> set w"
    by (rule plainWords_without [OF assms(1)]) (simp add: isLower_def isDigit_def code_def)
  have "split (CHR 0x0A) (normalizeDelimiters (concat (map (\<lambda>w. w @ '' '') ws))) = ws @ [[]]"
    using split_words [OF nl] by (simp add: normalizeDelimiters_words [OF assms(1)])
  then show ?thesis
    unfolding uniqueBaseNames_def
    by (simp only: pieces_words [OF assms(1)] firstOccurrences_distinct [OF assms(2)])
qed

lemma uniqueTlds_words:
  assumes "list_all plainWord ws" and "distinct ws"
  shows "uniqueTlds (concat (map (\<lambda>w. w @ '','') ws)) = ws"
proof -
  have nl: "\<forall>w \<in> set ws. CHR '','' \<notin> set w"
    by (rule plainWords_without [OF assms(1)]) (simp add: isLower_def isDigit_def code_def)
  have "split CHR '','' (concat (map (\<lambda>w. w @ '','') ws)) = ws @ [[]]"
    using split_words [OF nl] by simp
  then show ?thesis
    unfolding uniqueTlds_def
    by (simp only: pieces_words [OF assms(1)] firstOccurrences_distinct [OF assms(2)])
qed

lemma letters_lower: "\<forall>c \<in> set letters. isLower c"
  by (simp add: letters_def isLower_def code_def)

lemma letters_distinct: "distinct letters"
  by (simp add: letters_def)

lemma letters_length: "length letters = 15"
  by (simp add: letters_def)

lemma twoLetterNames_plain: "list_all plainWord twoLetterNames"
  using letters_lower by (auto simp: twoLetterNames_def list_all_iff plainWord_def)

lemma twoLetterNames_distinct: "distinct twoLetterNames"
  unfolding twoLetterNames_def
  by (rule iffD2 [OF distinct_map]) (auto simp: distinct_product letters_distinct inj_on_def)

lemma twoLetterNames_length: "length twoLetterNames = 225"
  by (simp add: twoLetterNames_def letters_length)

lemma isValidBaseName_twoLetters:
  "isLower a \<Longrightarrow> isLower b \<Longrightarrow> isValidBaseName [a, b]"
  using plain_char [of a] plain_char [of b]
  by (simp add: isValidBaseName_def startsWith_def endsWith_def labelLike_def)

lemma isValidTld_twoLetters:
  "isLower a \<Longrightarrow> isLower b \<Longrightarrow> isValidTld [a, b]"
  using plain_char [of a] plain_char [of b]
  by (auto simp: isValidTld_def startsWith_def endsWith_def labelLike_def allNumeric_def
      isLower_def isDigit_def)

lemma twoLetterNames_valid:
  "list_all isValidBaseName twoLetterNames" "list_all isValidTld twoLetterNames"
  using letters_lower
  by (auto simp: twoLetterNames_def list_all_iff isValidBaseName_twoLetters isValidTld_twoLetters)


lemma length_domainsToProcess: "length (domainsToProcess bases tlds) = length bases * length tlds"
  by (induction bases) (simp_all add: domainsToProcess_def)

lemma fields_clearFlushInterval [simp]:
  "errorMessage (clearFlushInterval s) = errorMessage s"
  "gridResults (clearFlushInterval s) = gridResults s"
  "isLoading (clearFlushInterval s) = isLoading s"
  "inFlight (clearFlushInterval s) = inFlight s"
  "fetchLog (clearFlushInterval s) = fetchLog s"
  "baseNamesInput (clearFlushInterval s) = baseNamesInput s"
  "tldsInput (clearFlushInterval s) = tldsInput s"
  by (simp_all add: clearFlushInterval_def split: option.split)

text \<open>
  C4. When the valid base names and TLDs of a submission give more than 50000
  combinations, \<^verbatim>\<open>handleSubmit\<close> sets the error message that asks for fewer base
  names or TLDs, leaves the grid empty and the loading flag off, starts no check
  and fetches nothing.
\<close>

theorem handleSubmit_over_ceiling:
  assumes "list_all isValidBaseName (uniqueBaseNames (baseNamesInput s))"
    and "list_all isValidTld (uniqueTlds (tldsInput s))"
    and "length (domainsToProcess (uniqueBaseNames (baseNamesInput s)) (uniqueTlds (tldsInput s))) > 50000"
  shows "errorMessage (handleSubmit now ids s) = Some tooManyMessage
         \<and> gridResults (handleSubmit now ids s) = []
         \<and> \<not> isLoading (handleSubmit now ids s)
         \<and> inFlight (handleSubmit now ids s) = inFlight s
         \<and> fetchLog (handleSubmit now ids s) = fetchLog s"
proof -
  let ?bases = "uniqueBaseNames (baseNamesInput s)" and ?tlds = "uniqueTlds (tldsInput s)"
  from assms(3) have prod: "length ?bases * length ?tlds > 50000"
    by (simp add: length_domainsToProcess)
  then have ne: "length ?bases \<noteq> 0" "length ?tlds \<noteq> 0"
    by auto
  from assms(1) have vb: "filter (\<lambda>nm. \<not> isValidBaseName nm) ?bases = []"
    by (simp add: list_all_iff filter_empty_conv)
  from assms(2) have vt: "filter (\<lambda>t. \<not> isValidTld t) ?tlds = []"
    by (simp add: list_all_iff filter_empty_conv)
  show ?thesis
    using prod ne vb vt
    by (simp add: handleSubmit_def clearAsyncOperations_def Let_def length_domainsToProcess)
qed

lemma crowdedForm_inputs:
  "uniqueBaseNames (baseNamesInput crowdedForm) = twoLetterNames"
  "uniqueTlds (tldsInput crowdedForm) = twoLetterNames"
  by (simp_all add: crowdedForm_def uniqueBaseNames_words uniqueTlds_words
      twoLetterNames_plain twoLetterNames_distinct)

theorem handleSubmit_over_ceiling_witness:
  "length (domainsToProcess (uniqueBaseNames (baseNamesInput crowdedForm))
             (uniqueTlds (tldsInput crowdedForm))) = 50625
   \<and> errorMessage (handleSubmit 0 (\<lambda>n. []) crowdedForm) = Some tooManyMessage
   \<and> gridResults (handleSubmit 0 (\<lambda>n. []) crowdedForm) = []
   \<and> \<not> isLoading (handleSubmit 0 (\<lambda>n. []) crowdedForm)
   \<and> inFlight (handleSubmit 0 (\<lambda>n. []) crowdedForm) = []
   \<and> fetchLog (handleSubmit 0 (\<lambda>n. []) crowdedForm) = []"
proof -
  have n: "length (domainsToProcess (uniqueBaseNames (baseNamesInput crowdedForm))
             (uniqueTlds (tldsInput crowdedForm))) = 50625"
    by (simp add: crowdedForm_inputs length_domainsToProcess twoLetterNames_length)
  have init: "inFlight crowdedForm = []" "fetchLog crowdedForm = []"
    by (simp_all add: crowdedForm_def initialState_def)
  show ?thesis
    using handleSubmit_over_ceiling [of crowdedForm 0 "\<lambda>n. []"] n init
    by (simp add: crowdedForm_inputs twoLetterNames_valid)
qed


section \<open>Flushing the buffer\<close>

text \<open>
  Where no base name and no TLD is \<^verbatim>\<open>constructor\<close>, a flush applies to every cell
  the update enqueued last for it and leaves the other cells as they are
  (\<open>flush_last_write_wins\<close>). A row other than \<^verbatim>\<open>constructor\<close> for which no
  update is buffered stays the same object (\<open>flush_keeps_untouched_rows\<close>).
\<close>

lemma map_of_replace:
  "map_of (map (\<lambda>(k', v'). if k' = k then (k', v) else (k', v')) ps) x
     = (if x = k then (case map_of ps k of None \<Rightarrow> None | Some w \<Rightarrow> Some v) else map_of ps x)"
  by (induction ps) auto

lemma map_of_assign: "map_of (assign k v ps) = (map_of ps)(k \<mapsto> v)"
  by (rule ext) (auto simp: assign_def map_of_replace map_add_def split: option.split)

lemma groupUpdates_untouched:
  assumes "groupUpdates us m props = (thrown, m', props')"
    and "map_of m b = None"
    and "\<forall>u \<in> set us. upd_baseName u \<noteq> b"
  shows "map_of m' b = None"
  using assms
proof (induction us arbitrary: m props)
  case Nil
  then show ?case by simp
next
  case (Cons u us)
  show ?case
  proof (cases "readRowUpdates m (upd_baseName u)")
    case NoRowUpdates
    with Cons.prems show ?thesis
      by (intro Cons.IH [of "assign (upd_baseName u) (assign (upd_tld u)
            \<lparr>new_status = upd_status u, new_reason = upd_reason u\<rparr> []) m" props])
         (auto simp: Let_def map_of_assign)
  next
    case (OwnUpdates d)
    with Cons.prems show ?thesis
      by (intro Cons.IH [of "assign (upd_baseName u) (assign (upd_tld u)
            \<lparr>new_status = upd_status u, new_reason = upd_reason u\<rparr> d) m" props])
         (auto simp: Let_def map_of_assign)
  next
    case ObjectFunction
    show ?thesis
    proof (cases "upd_tld u \<in> set readOnlyMembers")
      case True
      with ObjectFunction Cons.prems show ?thesis by (simp add: Let_def)
    next
      case False
      with ObjectFunction Cons.prems show ?thesis
        by (intro Cons.IH [of m "assign (upd_tld u)
              \<lparr>new_status = upd_status u, new_reason = upd_reason u\<rparr> props"])
           (auto simp: Let_def)
    qed
  qed
qed

lemma updateRows_untouched:
  assumes "updateRows m props next rows = (False, undef, next', rs)"
  shows "length rs = length rows
         \<and> (\<forall>i < length rows. readRowUpdates m (baseName (snd (rows ! i))) = NoRowUpdates
                \<longrightarrow> rs ! i = rows ! i)"
  using assms
proof (induction rows arbitrary: "next" undef next' rs)
  case Nil
  then show ?case by simp
next
  case (Cons r rows)
  obtain addr row where r: "r = (addr, row)" by (cases r)
  obtain t u n xs where rec: "updateRows m props next rows = (t, u, n, xs)"
    by (cases "updateRows m props next rows") auto
  obtain t' u' n' xs' where rec': "updateRows m props (Suc next) rows = (t', u', n', xs')"
    by (cases "updateRows m props (Suc next) rows") auto
  obtain ct cu ch cs where cells:
    "updateCells (readCellUpdate (readRowUpdates m (baseName row)) props) (tldResults row) = (ct, cu, ch, cs)"
    by (cases "updateCells (readCellUpdate (readRowUpdates m (baseName row)) props) (tldResults row)") auto
  show ?case
  proof (cases "readRowUpdates m (baseName row) = NoRowUpdates")
    case True
    with Cons.prems r rec have t: "t = False" and rs: "rs = (addr, row) # xs"
      by (auto simp: Let_def)
    from Cons.IH [of "next" u n xs] rec t
    have ih: "length xs = length rows
         \<and> (\<forall>i < length rows. readRowUpdates m (baseName (snd (rows ! i))) = NoRowUpdates
                \<longrightarrow> xs ! i = rows ! i)" by simp
    show ?thesis
      using ih rs r by (auto simp: nth_Cons split: nat.split)
  next
    case False
    show ?thesis
    proof (cases ch)
      case True
      with False Cons.prems r cells rec' have t: "ct = False" "t' = False"
        and rs: "rs = (next, row\<lparr>tldResults := cs\<rparr>) # xs'"
        by (auto simp: Let_def split: if_splits)
      from Cons.IH [of "Suc next" u' n' xs'] rec' t
      have ih: "length xs' = length rows
         \<and> (\<forall>i < length rows. readRowUpdates m (baseName (snd (rows ! i))) = NoRowUpdates
                \<longrightarrow> xs' ! i = rows ! i)" by simp
      show ?thesis
        using ih rs r False by (auto simp: nth_Cons split: nat.split)
    next
      case no: False
      with False Cons.prems r cells rec have t: "ct = False" "t = False"
        and rs: "rs = (addr, row) # xs"
        by (auto simp: Let_def split: if_splits)
      from Cons.IH [of "next" u n xs] rec t
      have ih: "length xs = length rows
         \<and> (\<forall>i < length rows. readRowUpdates m (baseName (snd (rows ! i))) = NoRowUpdates
                \<longrightarrow> xs ! i = rows ! i)" by simp
      show ?thesis
        using ih rs r by (auto simp: nth_Cons split: nat.split)
    qed
  qed
qed

lemma flush_keeps_untouched_rows:
  assumes "i < length (gridResults s)"
    and "baseName (snd (gridResults s ! i)) \<noteq> ''constructor''"
    and "\<forall>u \<in> set (pendingCellUpdates s). upd_baseName u \<noteq> baseName (snd (gridResults s ! i))"
  shows "gridResults (flushPendingCellUpdates s) ! i = gridResults s ! i"
proof (cases "pendingCellUpdates s = []")
  case True
  then show ?thesis by (simp add: flushPendingCellUpdates_def)
next
  case False
  let ?b = "baseName (snd (gridResults s ! i))"
  obtain thrown m props where g:
    "groupUpdates (pendingCellUpdates s) [] (objectProps s) = (thrown, m, props)"
    by (cases "groupUpdates (pendingCellUpdates s) [] (objectProps s)") auto
  from groupUpdates_untouched [OF g] assms(3) have "map_of m ?b = None" by simp
  with assms(2) have none: "readRowUpdates m ?b = NoRowUpdates"
    by (simp add: readRowUpdates_def)
  obtain t u n rs where r: "updateRows m props (nextAddress s) (gridResults s) = (t, u, n, rs)"
    by (cases "updateRows m props (nextAddress s) (gridResults s)") auto
  show ?thesis
  proof (cases "thrown \<or> t \<or> u")
    case True
    with False g r show ?thesis
      by (auto simp: flushPendingCellUpdates_def applyUpdates_def Let_def)
  next
    case ok: False
    with r have "updateRows m props (nextAddress s) (gridResults s) = (False, u, n, rs)" by simp
    from updateRows_untouched [OF this] assms(1) none have "rs ! i = gridResults s ! i" by simp
    with False g r ok show ?thesis
      by (auto simp: flushPendingCellUpdates_def applyUpdates_def Let_def)
  qed
qed


lemma lastUpdateFor_Cons:
  "lastUpdateFor (u # us) b t =
     (case lastUpdateFor us b t of
        Some x \<Rightarrow> Some x
      | None \<Rightarrow> if upd_baseName u = b \<and> upd_tld u = t
                then Some \<lparr>new_status = upd_status u, new_reason = upd_reason u\<rparr> else None)"
  by (auto simp: lastUpdateFor_def split: list.split)

lemma groupUpdates_stored:
  assumes "\<forall>u \<in> set us. upd_baseName u \<noteq> ''constructor''"
  shows "\<exists>m'. groupUpdates us m props = (False, m', props)
           \<and> (\<forall>b t. stored m' b t = (case lastUpdateFor us b t of Some x \<Rightarrow> Some x | None \<Rightarrow> stored m b t))"
  using assms
proof (induction us arbitrary: m)
  case Nil
  then show ?case by (simp add: lastUpdateFor_def)
next
  case (Cons u us)
  let ?v = "\<lparr>new_status = upd_status u, new_reason = upd_reason u\<rparr>"
  let ?d = "case map_of m (upd_baseName u) of None \<Rightarrow> [] | Some d \<Rightarrow> d"
  let ?m1 = "assign (upd_baseName u) (assign (upd_tld u) ?v ?d) m"
  from Cons.prems have nc: "upd_baseName u \<noteq> ''constructor''" by simp
  then have step: "groupUpdates (u # us) m props = groupUpdates us ?m1 props"
    by (auto simp: Let_def readRowUpdates_def split: option.split)
  have st: "stored ?m1 b t = (if upd_baseName u = b \<and> upd_tld u = t then Some ?v else stored m b t)" for b t
    by (auto simp: stored_def map_of_assign split: option.split)
  from Cons.IH [of ?m1] Cons.prems obtain m' where
    g: "groupUpdates us ?m1 props = (False, m', props)" and
    l: "\<forall>b t. stored m' b t = (case lastUpdateFor us b t of Some x \<Rightarrow> Some x | None \<Rightarrow> stored ?m1 b t)"
    by auto
  have "stored m' b t = (case lastUpdateFor (u # us) b t of Some x \<Rightarrow> Some x | None \<Rightarrow> stored m b t)" for b t
    using l st [of b t] by (auto simp: lastUpdateFor_Cons split: option.split)
  with g step show ?case by auto
qed

lemma readCellUpdate_plain:
  assumes "b \<noteq> ''constructor''" and "t \<noteq> ''constructor''"
  shows "readCellUpdate (readRowUpdates m b) props t
           = (case stored m b t of None \<Rightarrow> NoCellUpdate | Some u \<Rightarrow> Found u)"
  using assms by (auto simp: readCellUpdate_def readRowUpdates_def stored_def split: option.split)

lemma updateCells_plain:
  assumes "\<forall>cell \<in> set cells. rd (tld cell) = (case f (tld cell) of None \<Rightarrow> NoCellUpdate | Some u \<Rightarrow> Found u)"
  shows "\<exists>ch. updateCells rd cells =
           (False, False, ch,
            map (\<lambda>cell. case f (tld cell) of
                           None \<Rightarrow> cell
                         | Some u \<Rightarrow> cell\<lparr>cell_status := new_status u, cell_reason := new_reason u\<rparr>) cells)
         \<and> (\<not> ch \<longrightarrow> (\<forall>cell \<in> set cells. f (tld cell) = None))"
  using assms
proof (induction cells)
  case Nil
  then show ?case by (intro exI [of _ False]) simp
next
  case (Cons c cells)
  then obtain ch where ih: "updateCells rd cells =
           (False, False, ch,
            map (\<lambda>cell. case f (tld cell) of
                           None \<Rightarrow> cell
                         | Some u \<Rightarrow> cell\<lparr>cell_status := new_status u, cell_reason := new_reason u\<rparr>) cells)"
      "\<not> ch \<longrightarrow> (\<forall>cell \<in> set cells. f (tld cell) = None)"
    by auto
  from Cons.prems have "rd (tld c) = (case f (tld c) of None \<Rightarrow> NoCellUpdate | Some u \<Rightarrow> Found u)"
    by simp
  with ih show ?case by (cases "f (tld c)") auto
qed

lemma withLastUpdates_same:
  "\<forall>cell \<in> set (tldResults row). lastUpdateFor us (baseName row) (tld cell) = None
     \<Longrightarrow> withLastUpdates us row = row"
proof -
  assume a: "\<forall>cell \<in> set (tldResults row). lastUpdateFor us (baseName row) (tld cell) = None"
  then have "map (\<lambda>cell. case lastUpdateFor us (baseName row) (tld cell) of
                          None \<Rightarrow> cell
                        | Some u \<Rightarrow> cell\<lparr>cell_status := new_status u, cell_reason := new_reason u\<rparr>)
             (tldResults row) = tldResults row"
    by (intro map_idI) simp
  then show ?thesis by (simp add: withLastUpdates_def)
qed

lemma updateRows_plain:
  assumes "\<forall>(addr, row) \<in> set rows. baseName row \<noteq> ''constructor''
              \<and> (\<forall>cell \<in> set (tldResults row). tld cell \<noteq> ''constructor'')"
    and "\<forall>b t. stored m b t = lastUpdateFor us b t"
  shows "\<exists>next' rs. updateRows m props next rows = (False, False, next', rs)
           \<and> map snd rs = map (\<lambda>(addr, row). withLastUpdates us row) rows"
  using assms(1)
proof (induction rows arbitrary: "next")
  case Nil
  then show ?case by simp
next
  case (Cons r rows)
  obtain addr row where r: "r = (addr, row)" by (cases r)
  from Cons.prems r have b: "baseName row \<noteq> ''constructor''"
    and ts: "\<forall>cell \<in> set (tldResults row). tld cell \<noteq> ''constructor''" by auto
  from Cons.prems have rest: "\<forall>(addr, row) \<in> set rows. baseName row \<noteq> ''constructor''
              \<and> (\<forall>cell \<in> set (tldResults row). tld cell \<noteq> ''constructor'')" by simp
  let ?rd = "readCellUpdate (readRowUpdates m (baseName row)) props"
  have rd: "\<forall>cell \<in> set (tldResults row).
      ?rd (tld cell) = (case lastUpdateFor us (baseName row) (tld cell) of
                          None \<Rightarrow> NoCellUpdate | Some u \<Rightarrow> Found u)"
    using b ts assms(2) by (simp add: readCellUpdate_plain)
  from updateCells_plain [of "tldResults row" ?rd "lastUpdateFor us (baseName row)", OF rd]
  obtain ch where cells: "updateCells ?rd (tldResults row) =
       (False, False, ch, tldResults (withLastUpdates us row))"
    and same: "\<not> ch \<longrightarrow> (\<forall>cell \<in> set (tldResults row). lastUpdateFor us (baseName row) (tld cell) = None)"
    by (auto simp: withLastUpdates_def)
  have upd: "row\<lparr>tldResults := tldResults (withLastUpdates us row)\<rparr> = withLastUpdates us row"
    by (simp add: withLastUpdates_def)
  show ?case
  proof (cases "readRowUpdates m (baseName row) = NoRowUpdates")
    case True
    then have "map_of m (baseName row) = None"
      by (auto simp: readRowUpdates_def split: option.splits if_splits)
    then have "\<forall>cell \<in> set (tldResults row). lastUpdateFor us (baseName row) (tld cell) = None"
      using assms(2) [rule_format, symmetric] by (simp add: stored_def)
    then have w: "withLastUpdates us row = row" by (rule withLastUpdates_same)
    from Cons.IH [OF rest, of "next"] obtain next' rs where
      "updateRows m props next rows = (False, False, next', rs)"
      "map snd rs = map (\<lambda>(addr, row). withLastUpdates us row) rows" by auto
    with True r w show ?thesis by (auto simp: Let_def)
  next
    case False
    show ?thesis
    proof (cases ch)
      case True
      from Cons.IH [OF rest, of "Suc next"] obtain next' rs where
        "updateRows m props (Suc next) rows = (False, False, next', rs)"
        "map snd rs = map (\<lambda>(addr, row). withLastUpdates us row) rows" by auto
      with False True r cells upd show ?thesis by (auto simp: Let_def)
    next
      case no: False
      with same have w: "withLastUpdates us row = row" by (auto intro: withLastUpdates_same)
      from Cons.IH [OF rest, of "next"] obtain next' rs where
        "updateRows m props next rows = (False, False, next', rs)"
        "map snd rs = map (\<lambda>(addr, row). withLastUpdates us row) rows" by auto
      with False no r cells w show ?thesis by (auto simp: Let_def)
    qed
  qed
qed

lemma flush_last_write_wins:
  assumes "\<forall>u \<in> set (pendingCellUpdates s). upd_baseName u \<noteq> ''constructor''"
    and "\<forall>(addr, row) \<in> set (gridResults s). baseName row \<noteq> ''constructor''
              \<and> (\<forall>cell \<in> set (tldResults row). tld cell \<noteq> ''constructor'')"
  shows "map snd (gridResults (flushPendingCellUpdates s))
           = map (\<lambda>(addr, row). withLastUpdates (pendingCellUpdates s) row) (gridResults s)
         \<and> fault (flushPendingCellUpdates s) = fault s"
proof (cases "pendingCellUpdates s = []")
  case True
  have "withLastUpdates [] row = row" for row
    by (rule withLastUpdates_same) (simp add: lastUpdateFor_def)
  with True show ?thesis
    by (simp add: flushPendingCellUpdates_def case_prod_unfold)
next
  case False
  let ?us = "pendingCellUpdates s"
  from groupUpdates_stored [OF assms(1), of "[]" "objectProps s"] obtain m where
    g: "groupUpdates ?us [] (objectProps s) = (False, m, objectProps s)" and
    st: "\<forall>b t. stored m b t = lastUpdateFor ?us b t"
    by (auto simp: stored_def split: option.split)
  from updateRows_plain [OF assms(2) st, of "objectProps s" "nextAddress s"] obtain next' rs where
    "updateRows m (objectProps s) (nextAddress s) (gridResults s) = (False, False, next', rs)"
    "map snd rs = map (\<lambda>(addr, row). withLastUpdates ?us row) (gridResults s)" by auto
  with False g show ?thesis
    by (simp add: flushPendingCellUpdates_def applyUpdates_def Let_def)
qed


section \<open>Runs of the component\<close>

lemma run_snoc: "run (events @ [e]) = step (run events) e"
  by (simp add: run_def)

lemma flushInterval_applyUpdates [simp]:
  "flushInterval (applyUpdates us s) = flushInterval s"
  "pendingCellUpdates (applyUpdates us s) = pendingCellUpdates s"
  "isLoading (applyUpdates us s) = isLoading s"
  "startTime (applyUpdates us s) = startTime s"
  "completedChecks (applyUpdates us s) = completedChecks s"
  "totalChecks (applyUpdates us s) = totalChecks s"
  by (simp_all add: applyUpdates_def split: prod.split)

lemma fields_flush [simp]:
  "flushInterval (flushPendingCellUpdates s) = flushInterval s"
  "pendingCellUpdates (flushPendingCellUpdates s) = []"
  "isLoading (flushPendingCellUpdates s) = isLoading s"
  "startTime (flushPendingCellUpdates s) = startTime s"
  "completedChecks (flushPendingCellUpdates s) = completedChecks s"
  "totalChecks (flushPendingCellUpdates s) = totalChecks s"
  by (simp_all add: flushPendingCellUpdates_def Let_def)

lemma flushInterval_clear:
  "flushInterval s \<noteq> Some 0 \<Longrightarrow> flushInterval (clearFlushInterval s) = None"
  by (auto simp: clearFlushInterval_def split: option.split)

lemma others_clearFlushInterval [simp]:
  "pendingCellUpdates (clearFlushInterval s) = pendingCellUpdates s"
  "startTime (clearFlushInterval s) = startTime s"
  "completedChecks (clearFlushInterval s) = completedChecks s"
  "totalChecks (clearFlushInterval s) = totalChecks s"
  "isLoading (clearFlushInterval s) = isLoading s"
  "handlesIssued (clearFlushInterval s) = handlesIssued s"
  by (simp_all add: clearFlushInterval_def split: option.split)

lemma handle_handleSubmit:
  "flushInterval s \<noteq> Some 0 \<Longrightarrow> flushInterval (handleSubmit now ids s) \<noteq> Some 0"
  by (simp add: handleSubmit_def clearAsyncOperations_def Let_def flushInterval_clear)

lemma handle_dispatch:
  "flushInterval s \<noteq> Some 0 \<Longrightarrow> flushInterval (dispatch s e) \<noteq> Some 0"
proof (cases e)
  case (ClickSubmit now ids)
  then show "flushInterval s \<noteq> Some 0 \<Longrightarrow> ?thesis" by (simp add: handle_handleSubmit)
next
  case ClickClear
  then show "flushInterval s \<noteq> Some 0 \<Longrightarrow> ?thesis"
    by (simp add: handleClear_def clearAsyncOperations_def flushInterval_clear)
next
  case (CheckSettles k net)
  then show "flushInterval s \<noteq> Some 0 \<Longrightarrow> ?thesis"
    by (simp add: settle_def onSettled_def Let_def)
next
  case (FinallyRuns now)
  then show "flushInterval s \<noteq> Some 0 \<Longrightarrow> ?thesis"
    by (auto simp: runFinally_def onFinally_def Let_def flushInterval_clear split: option.split)
qed simp_all

lemma handle_step: "flushInterval s \<noteq> Some 0 \<Longrightarrow> flushInterval (step s e) \<noteq> Some 0"
  by (simp add: step_def handle_dispatch)

lemma handle_run: "flushInterval (run events) \<noteq> Some 0"
proof (induction events rule: rev_induct)
  case Nil
  then show ?case by (simp add: run_def initialState_def)
next
  case (snoc e events)
  then show ?case by (simp add: run_snoc handle_step)
qed

lemma started_dispatch:
  assumes "totalChecks s > 0 \<longrightarrow> startTime s \<noteq> None"
  shows "totalChecks (dispatch s e) > 0 \<longrightarrow> startTime (dispatch s e) \<noteq> None"
proof (cases e)
  case (ClickSubmit now ids)
  with assms show ?thesis
    by (simp add: handleSubmit_def clearAsyncOperations_def Let_def)
next
  case ClickClear
  with assms show ?thesis
    by (simp add: handleClear_def clearAsyncOperations_def)
next
  case (CheckSettles k net)
  with assms show ?thesis
    by (simp add: settle_def onSettled_def Let_def)
next
  case (FinallyRuns now)
  with assms show ?thesis
    by (auto simp: runFinally_def onFinally_def Let_def split: option.split)
qed (use assms in simp_all)

lemma started_step:
  assumes "totalChecks s > 0 \<longrightarrow> startTime s \<noteq> None"
  shows "totalChecks (step s e) > 0 \<longrightarrow> startTime (step s e) \<noteq> None"
  using assms started_dispatch [of s e] by (simp add: step_def)

lemma started_run: "totalChecks (run events) > 0 \<longrightarrow> startTime (run events) \<noteq> None"
proof (induction events rule: rev_induct)
  case Nil
  then show ?case by (simp add: run_def initialState_def)
next
  case (snoc e events)
  then show ?case by (simp add: run_snoc started_step)
qed

lemma clearAsyncOperations_resets:
  assumes "flushInterval s \<noteq> Some 0"
  shows "flushInterval (clearAsyncOperations s) = None
         \<and> pendingCellUpdates (clearAsyncOperations s) = []
         \<and> completedChecks (clearAsyncOperations s) = 0
         \<and> totalChecks (clearAsyncOperations s) = 0"
  using assms by (simp add: clearAsyncOperations_def flushInterval_clear)

lemma clear_discards_run:
  "flushInterval (handleClear (run events)) = None
   \<and> pendingCellUpdates (handleClear (run events)) = []
   \<and> completedChecks (handleClear (run events)) = 0
   \<and> totalChecks (handleClear (run events)) = 0"
  using handle_run [of events]
  by (simp add: handleClear_def clearAsyncOperations_def flushInterval_clear)

lemma submit_discards_run:
  "pendingCellUpdates (handleSubmit now ids (run events)) = []
   \<and> completedChecks (handleSubmit now ids (run events)) = 0
   \<and> (flushInterval (handleSubmit now ids (run events)) = None
        \<or> flushInterval (handleSubmit now ids (run events)) = Some (Suc (handlesIssued (run events))))"
  using handle_run [of events]
  by (simp add: handleSubmit_def clearAsyncOperations_def flushInterval_clear Let_def)

lemma grid_clearFlushInterval:
  "gridResults (clearFlushInterval s) = gridResults s"
  "fault (clearFlushInterval s) = fault s"
  by (simp_all add: clearFlushInterval_def split: option.split)

text \<open>
  What the \<^verbatim>\<open>finally\<close> callback does when it makes the counters meet: it stops
  the timer, flushes the buffer into the grid, clears the loading flag and
  records the time elapsed since the start time, which it takes for set when
  it is not zero.
\<close>

lemma counters_meet_completes:
  assumes "fault s = None" and "finallyPending s > 0"
    and "completedChecks s + 1 = totalChecks s"
    and "flushInterval s \<noteq> Some 0"
    and "startTime s = Some t" and "t \<noteq> 0"
    and "\<forall>u \<in> set (pendingCellUpdates s). upd_baseName u \<noteq> ''constructor''"
    and "\<forall>(addr, row) \<in> set (gridResults s). baseName row \<noteq> ''constructor''
              \<and> (\<forall>cell \<in> set (tldResults row). tld cell \<noteq> ''constructor'')"
  shows "flushInterval (step s (FinallyRuns now)) = None
         \<and> pendingCellUpdates (step s (FinallyRuns now)) = []
         \<and> map snd (gridResults (step s (FinallyRuns now)))
             = map (\<lambda>(addr, row). withLastUpdates (pendingCellUpdates s) row) (gridResults s)
         \<and> isLoading (step s (FinallyRuns now)) = False
         \<and> timeTaken (step s (FinallyRuns now)) = Some (now - t)
         \<and> fault (step s (FinallyRuns now)) = None"
proof -
  define s0 where "s0 = s\<lparr>finallyPending := finallyPending s - 1\<rparr>"
  define s1 where "s1 = s0\<lparr>completedChecks := completedChecks s0 + 1\<rparr>"
  define s' where "s' = clearFlushInterval s1"
  have same: "pendingCellUpdates s' = pendingCellUpdates s" "gridResults s' = gridResults s"
    "fault s' = fault s" "startTime s' = startTime s"
    by (simp_all add: s'_def s1_def s0_def grid_clearFlushInterval)
  from assms(4) have stop: "flushInterval s' = None"
    by (simp add: s'_def s1_def s0_def flushInterval_clear)
  from assms(7,8) have flushed:
    "map snd (gridResults (flushPendingCellUpdates s'))
           = map (\<lambda>(addr, row). withLastUpdates (pendingCellUpdates s') row) (gridResults s')
         \<and> fault (flushPendingCellUpdates s') = fault s'"
    by (intro flush_last_write_wins) (simp_all add: same)
  from assms(3) have meet: "completedChecks s1 = totalChecks s1"
    by (simp add: s1_def s0_def)
  from assms(1,2) have "step s (FinallyRuns now) = onFinally now s0"
    by (simp add: step_def runFinally_def s0_def)
  also have "\<dots> = (let s2 = (flushPendingCellUpdates s')\<lparr>isLoading := False\<rparr> in
                     case startTime s2 of
                       Some t \<Rightarrow> if t \<noteq> 0 then s2\<lparr>timeTaken := Some (now - t)\<rparr> else s2
                     | None \<Rightarrow> s2)"
    unfolding onFinally_def Let_def s1_def [symmetric] s'_def [symmetric] using meet by simp
  also have "\<dots> = (flushPendingCellUpdates s')\<lparr>isLoading := False, timeTaken := Some (now - t)\<rparr>"
    using assms(5,6) same(4) by (simp add: Let_def)
  finally have "step s (FinallyRuns now)
      = (flushPendingCellUpdates s')\<lparr>isLoading := False, timeTaken := Some (now - t)\<rparr>" .
  with flushed stop same assms(1) show ?thesis by simp
qed

lemma parsed:
  "uniqueBaseNames ''foo'' = [''foo'']" "uniqueTlds ''com'' = [''com'']"
  "uniqueBaseNames ''foo bar'' = [''foo'', ''bar'']" "uniqueBaseNames ''bar'' = [''bar'']"
  "uniqueBaseNames ''constructor foo'' = [''constructor'', ''foo'']"
  "isValidBaseName ''foo''" "isValidBaseName ''bar''" "isValidBaseName ''constructor''"
  "isValidTld ''com''"
  "trim ''foo'' \<noteq> []" "trim ''bar'' \<noteq> []" "trim ''com'' \<noteq> []" "trim ''foo bar'' \<noteq> []" "trim ''constructor foo'' \<noteq> []"
  by code_simp+

lemma valid_constructor_com: "valid (isValidDomainFormat ''constructor.com'')"
  by code_simp

lemma valid_bar_com: "valid (isValidDomainFormat ''bar.com'')"
  by code_simp

lemma com_is_no_member:
  "''com'' \<notin> set readOnlyMembers" "''com'' \<notin> set throwingMembers" "''com'' \<notin> set objectMembers"
  by (simp_all add: readOnlyMembers_def throwingMembers_def objectMembers_def)

lemmas handlers =
  run_def step_def initialState_def callbacksPending_def handleSubmit_def handleClear_def
  clearAsyncOperations_def clearFlushInterval_def domainsToProcess_def initialGridResults_def
  initialRow_def settle_def onSettled_def runFinally_def onFinally_def
  flushPendingCellUpdates_def applyUpdates_def readRowUpdates_def readCellUpdate_def assign_def
  Let_def

text \<open>
  C7. The claim that the run is completed when its last combination settles
  fails in \<^term>\<open>overtakenRun\<close> and its continuation. The form is cleared while the
  check of \<^verbatim>\<open>foo.com\<close> is in flight and \<^verbatim>\<open>bar.com\<close> is submitted. When the old
  check settles, the counters of the new run meet: the timer is stopped, the
  loading flag is cleared and a time is recorded while \<^verbatim>\<open>bar.com\<close> is in flight.
  When \<^verbatim>\<open>bar.com\<close>, the last combination of the run, settles, the counter passes
  the total and nothing is done: no check is in flight, no callback is pending,
  the timer is stopped, the update of \<^verbatim>\<open>bar.com\<close> stays in the buffer and the
  grid shows the cell as checking. The callback completes a run only when it
  makes the counters meet (\<open>counters_meet_completes\<close>).
\<close>

theorem last_check_left_in_buffer:
  "map fullDomain (inFlight (run overtakenRun)) = [''bar.com'']
   \<and> totalChecks (run overtakenRun) = 1
   \<and> completedChecks (run overtakenRun) = 1
   \<and> isLoading (run overtakenRun) = False
   \<and> flushInterval (run overtakenRun) = None
   \<and> timeTaken (run overtakenRun) = Some 500
   \<and> inFlight (run (overtakenRun @ [CheckSettles 0 nxdomainEverywhere, FinallyRuns 2500])) = []
   \<and> finallyPending (run (overtakenRun @ [CheckSettles 0 nxdomainEverywhere, FinallyRuns 2500])) = 0
   \<and> totalChecks (run (overtakenRun @ [CheckSettles 0 nxdomainEverywhere, FinallyRuns 2500])) = 1
   \<and> completedChecks (run (overtakenRun @ [CheckSettles 0 nxdomainEverywhere, FinallyRuns 2500])) = 2
   \<and> map upd_baseName
       (pendingCellUpdates (run (overtakenRun @ [CheckSettles 0 nxdomainEverywhere, FinallyRuns 2500])))
       = [''bar'']
   \<and> flushInterval (run (overtakenRun @ [CheckSettles 0 nxdomainEverywhere, FinallyRuns 2500])) = None
   \<and> cellStatuses (run (overtakenRun @ [CheckSettles 0 nxdomainEverywhere, FinallyRuns 2500]))
       = [(''bar'', [(''com'', CHECKING)])]
   \<and> fault (run (overtakenRun @ [CheckSettles 0 nxdomainEverywhere, FinallyRuns 2500])) = None"
proof -
  obtain r where 1: "checkDomain nxdomainEverywhere ''foo.com'' = Inr \<lparr>status = AVAILABLE, reason = r\<rparr>"
    using nxdomain_available [OF valid_foo_com] by blast
  obtain r' where 2: "checkDomain nxdomainEverywhere ''bar.com'' = Inr \<lparr>status = AVAILABLE, reason = r'\<rparr>"
    using nxdomain_available [OF valid_bar_com] by blast
  show ?thesis
    by (simp add: overtakenRun_def cellStatuses_def handlers parsed 1 2)
qed

text \<open>
  The claim C10 as it stands, that the promise of \<^verbatim>\<open>checkDomain\<close> never rejects and
  the \<^verbatim>\<open>catch\<close> callback never runs, fails in \<^term>\<open>rejectedRun\<close>: the servers
  answer with status 0 and an answer length that has no string, the promise
  rejects, and the update enqueued is that of the \<^verbatim>\<open>catch\<close> callback.
\<close>

theorem catch_branch_reached:
  "checkDomain strangeAnswerLength ''foo.com'' = Inl (ErrorObject toPrimitiveMessage)
   \<and> pendingCellUpdates (run rejectedRun)
       = [\<lparr>upd_baseName = ''foo'', upd_tld = ''com'', upd_status = INVALID,
           upd_reason = Some ''Error during check''\<rparr>]"
proof -
  have "\<not> (\<forall>r. Inr r \<in> set (queryResults (network strangeAnswerLength) ''foo.com'')
            \<longrightarrow> readable r)"
    by (simp add: readable_queryResults unreadable_examples)
  with checkDomain_cases [OF valid_foo_com, of strangeAnswerLength]
  have 1: "checkDomain strangeAnswerLength ''foo.com'' = Inl (ErrorObject toPrimitiveMessage)"
    by simp
  then show ?thesis
    by (simp add: rejectedRun_def handlers parsed)
qed

text \<open>
  C6. The claim that \<^verbatim>\<open>completedChecks\<close> never exceeds \<^verbatim>\<open>totalChecks\<close> fails in
  \<^term>\<open>clearedRun\<close>: the form is cleared while the check of \<^verbatim>\<open>foo.com\<close> is in
  flight, which resets both counters, and the check then settles and counts.
\<close>

theorem completed_exceeds_total:
  "totalChecks (run clearedRun) = 0 \<and> completedChecks (run clearedRun) = 1"
  by (simp add: clearedRun_def handlers parsed)

text \<open>
  C5. The claim that results of the previous run settling after a new submission
  are discarded fails in \<^term>\<open>supersededRun\<close>: both checks of the second run are
  still in flight, and yet the new run counts one completed check and its grid
  shows \<^verbatim>\<open>foo.com\<close> as Taken, the result of the first run's check.
\<close>

theorem stale_result_applied:
  "map fullDomain (inFlight (run supersededRun)) = [''foo.com'', ''bar.com'']
   \<and> totalChecks (run supersededRun) = 2
   \<and> completedChecks (run supersededRun) = 1
   \<and> cellStatuses (run supersededRun) = [(''foo'', [(''com'', TAKEN)]), (''bar'', [(''com'', CHECKING)])]"
proof -
  obtain r where "checkDomain noerrorFromCloudflareA ''foo.com'' = Inr \<lparr>status = TAKEN, reason = r\<rparr>"
    using noerror_taken by blast
  then show ?thesis
    by (simp add: supersededRun_def cellStatuses_def handlers parsed)
qed

text \<open>
  C8. The claim that a flush returns every row without a buffered update as the
  same object fails in \<^term>\<open>constructorRun\<close>: the last flush has one update, for
  \<^verbatim>\<open>foo\<close>, and the row \<^verbatim>\<open>constructor\<close> moves from address 2 to address 3.
  The read \<^verbatim>\<open>updatesByBaseName["constructor"]\<close> finds the inherited function
  \<^verbatim>\<open>Object\<close>, on which the first flush had stored the update of \<^verbatim>\<open>com\<close>.
\<close>

theorem untouched_row_reallocated:
  "map upd_baseName (pendingCellUpdates (run constructorRun)) = [''foo'']
   \<and> rowAddresses (run constructorRun) = [(2, ''constructor''), (1, ''foo'')]
   \<and> rowAddresses (run (constructorRun @ [FinallyRuns 3000])) = [(3, ''constructor''), (4, ''foo'')]
   \<and> fault (run (constructorRun @ [FinallyRuns 3000])) = None"
proof -
  obtain r where 1: "checkDomain nxdomainEverywhere ''constructor.com'' = Inr \<lparr>status = AVAILABLE, reason = r\<rparr>"
    using nxdomain_available [OF valid_constructor_com] by blast
  obtain r' where 2: "checkDomain nxdomainEverywhere ''foo.com'' = Inr \<lparr>status = AVAILABLE, reason = r'\<rparr>"
    using nxdomain_available [OF valid_foo_com] by blast
  show ?thesis
    by (simp add: constructorRun_def rowAddresses_def handlers parsed com_is_no_member 1 2)
qed


section \<open>Sorting by a column\<close>

lemma statusOrder_le: "statusOrder st \<le> 4"
  by (cases st) (simp_all add: statusOrder_def)

lemma rankDifference_le:
  "(rankDifference (sortRank k a) (sortRank k b) \<le> 0) = (rankOrMissing k a \<le> rankOrMissing k b)"
  using statusOrder_le [of "cell_status (the (findCell k a))"]
        statusOrder_le [of "cell_status (the (findCell k b))"]
  by (auto simp: rankDifference_def sortRank_def rankOrMissing_def split: option.split)

lemma insertBy_insort:
  "(\<And>a b. (cmp a b \<le> 0) = (g a \<le> g b)) \<Longrightarrow> insertBy cmp x ys = insort_key g x ys"
  by (induction ys) simp_all

lemma sortBy_sort_key:
  assumes "\<And>a b. (cmp a b \<le> 0) = (g a \<le> g b)"
  shows "sortBy cmp xs = sort_key g xs"
proof -
  have "insertBy cmp = insort_key g"
    using insertBy_insort [of cmp g, OF assms] by (intro ext)
  then show ?thesis by (simp add: sortBy_def sort_key_def)
qed

lemma sortBy_rank:
  "sortBy (\<lambda>a b. rankDifference (sortRank k a) (sortRank k b)) rows = sort_key (rankOrMissing k) rows"
  by (rule sortBy_sort_key) (rule rankDifference_le)

text \<open>
  C9, amended. A sort request on a key sets the direction to ascending, and to
  descending when the configuration already was that key ascending. Sorting by a
  TLD column rearranges the rows; ascending, they are ordered by the status rank
  Available, Checking, Idle, Invalid, Taken, with the rows that have no cell for
  the column last; descending, they are in the reverse of that order, so the
  rows without a cell come first.
\<close>

theorem sorted_by_tld_column:
  assumes "k \<noteq> ''baseName''"
  shows "sortConfig (handleSortRequest k s)
           = Some \<lparr>key = k,
                   direction = (if sortConfig s = Some \<lparr>key = k, direction = Ascending\<rparr>
                                then Descending else Ascending)\<rparr>
       \<and> mset (sortedAndFilteredResults localeCompare rows (Some \<lparr>key = k, direction = d\<rparr>)) = mset rows
       \<and> (d = Ascending \<longrightarrow>
            sorted (map (rankOrMissing k)
                     (sortedAndFilteredResults localeCompare rows (Some \<lparr>key = k, direction = d\<rparr>)))
            \<and> missingLast k (sortedAndFilteredResults localeCompare rows (Some \<lparr>key = k, direction = d\<rparr>)))
       \<and> (d = Descending \<longrightarrow>
            sortedAndFilteredResults localeCompare rows (Some \<lparr>key = k, direction = d\<rparr>)
              = rev (sortedAndFilteredResults localeCompare rows (Some \<lparr>key = k, direction = Ascending\<rparr>))
            \<and> sorted (rev (map (rankOrMissing k)
                     (sortedAndFilteredResults localeCompare rows (Some \<lparr>key = k, direction = d\<rparr>)))))"
proof -
  have toggle: "sortConfig (handleSortRequest k s)
           = Some \<lparr>key = k,
                   direction = (if sortConfig s = Some \<lparr>key = k, direction = Ascending\<rparr>
                                then Descending else Ascending)\<rparr>"
    by (cases "sortConfig s") (auto simp: handleSortRequest_def Let_def)
  have asc: "sortedAndFilteredResults localeCompare rows (Some \<lparr>key = k, direction = Ascending\<rparr>)
               = sort_key (rankOrMissing k) rows"
    using assms by (simp add: sortedAndFilteredResults_def Let_def sortBy_rank)
  have desc: "sortedAndFilteredResults localeCompare rows (Some \<lparr>key = k, direction = Descending\<rparr>)
               = rev (sort_key (rankOrMissing k) rows)"
    using assms by (simp add: sortedAndFilteredResults_def Let_def sortBy_rank)
  have last: "missingLast k xs" if "sorted (map (rankOrMissing k) xs)" for xs
    using that
  proof (induction xs)
    case Nil
    then show ?case by (simp add: missingLast_def)
  next
    case (Cons x xs)
    show ?case
    proof (cases "findCell k x")
      case None
      have "findCell k y = None" if "y \<in> set xs" for y
      proof -
        from Cons.prems that have "rankOrMissing k x \<le> rankOrMissing k y" by auto
        with None show ?thesis
          using statusOrder_le [of "cell_status (the (findCell k y))"]
          by (auto simp: rankOrMissing_def split: option.splits)
      qed
      with None show ?thesis by (simp add: missingLast_def list_all_iff)
    next
      case (Some c)
      with Cons show ?thesis by (simp add: missingLast_def)
    qed
  qed
  show ?thesis
    using toggle asc desc last [of "sort_key (rankOrMissing k) rows"]
    by (cases d) (simp_all add: rev_map)
qed

lemma sorted_example:
  "sortedAndFilteredResults codeUnitCompare [rowWithoutCom, rowTakenCom, rowAvailableCom]
      (Some \<lparr>key = ''com'', direction = Ascending\<rparr>) = [rowAvailableCom, rowTakenCom, rowWithoutCom]"
  by (simp add: sortedAndFilteredResults_def sortBy_def rankDifference_def sortRank_def findCell_def
      rowWithoutCom_def rowTakenCom_def rowAvailableCom_def statusOrder_def)

theorem sorted_by_tld_column_witness:
  "sortConfig (handleSortRequest ''com'' initialState) = Some \<lparr>key = ''com'', direction = Ascending\<rparr>
   \<and> sortConfig (handleSortRequest ''com'' (handleSortRequest ''com'' initialState))
       = Some \<lparr>key = ''com'', direction = Descending\<rparr>
   \<and> missingLast ''com'' [rowAvailableCom, rowTakenCom, rowWithoutCom]
   \<and> sortedAndFilteredResults codeUnitCompare [rowWithoutCom, rowTakenCom, rowAvailableCom]
        (Some \<lparr>key = ''com'', direction = Descending\<rparr>) = [rowWithoutCom, rowTakenCom, rowAvailableCom]"
proof -
  have k: "''com'' \<noteq> ''baseName''" by simp
  have first: "sortConfig initialState = None" by (simp add: initialState_def)
  show ?thesis
    using sorted_by_tld_column [OF k, of initialState codeUnitCompare "[rowWithoutCom, rowTakenCom, rowAvailableCom]" Ascending]
          sorted_by_tld_column [OF k, of "handleSortRequest ''com'' initialState" codeUnitCompare
             "[rowWithoutCom, rowTakenCom, rowAvailableCom]" Descending]
          first
    by (simp add: sorted_example)
qed

text \<open>
  C9 as stated fails: sorted by the column \<^verbatim>\<open>com\<close> in descending order, the row
  that has no such cell comes first.
\<close>

theorem missing_cell_first_when_descending:
  "\<not> missingLast ''com''
       (sortedAndFilteredResults codeUnitCompare [rowWithoutCom, rowTakenCom, rowAvailableCom]
          (Some \<lparr>key = ''com'', direction = Descending\<rparr>))"
  by (simp add: missingLast_def sortedAndFilteredResults_def sortBy_def rankDifference_def sortRank_def findCell_def
      rowWithoutCom_def rowTakenCom_def rowAvailableCom_def statusOrder_def)


end
